theory Spec2Isabelle
  imports Main "HOL-Library.Word"
begin

unbundle bit_operations_syntax

section \<open>Python values\<close>

text \<open>
  What \<open>response.json()\<close> returns: the Python objects of a parsed JSON text. A dict is
  the list of its items in insertion order (its keys are distinct, as a Python dict's
  are); a float is carried as mantissa and exponent, the module never computes with one.
  A Python \<open>str\<close> is a \<open>string\<close>, one \<open>char\<close> per character: the strings over the
  characters with a code point below 256, which are those a header value can carry.
\<close>

datatype json =
    JNull
  | JBool bool
  | JInt int
  | JFloat int int
  | JStr string
  | JArr "json list"
  | JObj "(string \<times> json) list"

text \<open>
  The exceptions that can leave the module: its own \<open>LuxmedApiException\<close> with the
  payload it was raised with, the interpreter's \<open>KeyError\<close> and \<open>TypeError\<close>,
  \<open>ValueError\<close> of \<open>datetime.fromisoformat\<close>, the JSON decoder's error of
  \<open>response.json()\<close>, the transport's error of \<open>requests.get\<close> and
  \<open>requests.post\<close>, and the error they raise on a header they refuse to send.
\<close>

datatype error =
    LuxmedApiException json
  | KeyError string
  | TypeError
  | ValueError
  | JSONDecodeError
  | RequestException
  | InvalidHeader

text \<open>\<open>obj[key]\<close> with a \<open>str\<close> key: only a dict can be subscripted by a string.\<close>

fun getitem :: "json \<Rightarrow> string \<Rightarrow> error + json" where
  "getitem (JObj items) key =
     (case map_of items key of None \<Rightarrow> Inl (KeyError key) | Some v \<Rightarrow> Inr v)"
| "getitem _ key = Inl TypeError"

text \<open>
  \<open>for x in obj\<close>: a list yields its elements, a dict its keys, a \<open>str\<close> its
  characters (each a \<open>str\<close> of length one); nothing else is iterable.
\<close>

fun iter :: "json \<Rightarrow> error + json list" where
  "iter (JArr xs) = Inr xs"
| "iter (JObj items) = Inr (map (\<lambda>kv. JStr (fst kv)) items)"
| "iter (JStr s) = Inr (map (\<lambda>c. JStr [c]) s)"
| "iter _ = Inl TypeError"

section \<open>The standard library: decimal numbers, UUIDs, ISO dates\<close>

subsection \<open>\<open>str\<close> of an integer and \<open>%0wd\<close>\<close>

definition digit_char :: "nat \<Rightarrow> char" where
  "digit_char d = char_of (48 + d)"

fun str_nat :: "nat \<Rightarrow> string" where
  "str_nat n = (if n < 10 then [digit_char n] else str_nat (n div 10) @ [digit_char (n mod 10)])"

declare str_nat.simps [simp del]

definition str_int :: "int \<Rightarrow> string" where
  "str_int i = (if i < 0 then CHR ''-'' # str_nat (nat (- i)) else str_nat (nat i))"

text \<open>\<open>'%0wd' % n\<close> for a non-negative \<open>n\<close>: zeros on the left up to width \<open>w\<close>.\<close>

definition zero_padded :: "nat \<Rightarrow> nat \<Rightarrow> string" where
  "zero_padded w n = (let s = str_nat n in replicate (w - length s) CHR ''0'' @ s)"

subsection \<open>\<open>datetime.fromisoformat\<close>, \<open>.date()\<close> and \<open>str\<close> of a date\<close>

text \<open>
  The library function the visit search calls on every day-group accepts more or fewer
  strings from one version of the library to the next. \<open>fromisoformat_documented\<close> is the
  part all versions have in common: it accepts the format the library has documented for
  the function since it exists,
  \<^verbatim>\<open>YYYY-MM-DD[*HH[:MM[:SS[.fff[fff]]]][+HH:MM[:SS[.ffffff]]]]\<close>
  where \<open>*\<close> is any one character, laid out as the library's reference implementation
  (\<open>_parse_isoformat_date\<close>, \<open>_parse_hh_mm_ss_ff\<close>, \<open>_parse_isoformat_time\<close>, then
  the range checks of the \<open>datetime\<close> constructor), and raises \<open>ValueError\<close> on every
  other string. Later versions of the library accept further ISO 8601 forms; the function
  the client really calls is a part of its environment, below.
\<close>

definition digit_val :: "char \<Rightarrow> nat option" where
  "digit_val c =
     (let n = (of_char c :: nat) in if 48 \<le> n \<and> n \<le> 57 then Some (n - 48) else None)"

text \<open>Exactly \<open>num_digits\<close> decimal digits, added to \<open>var\<close>; the rest of the string.\<close>

fun parse_digits :: "nat \<Rightarrow> string \<Rightarrow> nat \<Rightarrow> (nat \<times> string) option" where
  "parse_digits 0 s var = Some (var, s)"
| "parse_digits (Suc num_digits) [] var = None"
| "parse_digits (Suc num_digits) (c # s) var =
     (case digit_val c of
        None \<Rightarrow> None
      | Some d \<Rightarrow> parse_digits num_digits s (var * 10 + d))"

definition parse_isoformat_date :: "string \<Rightarrow> (nat \<times> nat \<times> nat) option" where
  "parse_isoformat_date dtstr =
     (case parse_digits 4 dtstr 0 of
        None \<Rightarrow> None
      | Some (year, s4) \<Rightarrow>
          (case s4 of
             [] \<Rightarrow> None
           | sep1 # s5 \<Rightarrow>
               if sep1 \<noteq> CHR ''-'' then None
               else (case parse_digits 2 s5 0 of
                       None \<Rightarrow> None
                     | Some (month, s7) \<Rightarrow>
                         (case s7 of
                            [] \<Rightarrow> None
                          | sep2 # s8 \<Rightarrow>
                              if sep2 \<noteq> CHR ''-'' then None
                              else (case parse_digits 2 s8 0 of
                                      None \<Rightarrow> None
                                    | Some (day, rest) \<Rightarrow>
                                        if rest = [] then Some (year, month, day) else None)))))"

text \<open>\<open>HH[:MM[:SS[.fff[fff]]]]\<close>: hour, minute, second, microsecond.\<close>

definition parse_hh_mm_ss_ff :: "string \<Rightarrow> (nat \<times> nat \<times> nat \<times> nat) option" where
  "parse_hh_mm_ss_ff tstr =
     (case parse_digits 2 tstr 0 of
        None \<Rightarrow> None
      | Some (hh, r2) \<Rightarrow>
          (case r2 of
             [] \<Rightarrow> Some (hh, 0, 0, 0)
           | c1 # r3 \<Rightarrow>
               if c1 \<noteq> CHR '':'' then None
               else (case parse_digits 2 r3 0 of
                       None \<Rightarrow> None
                     | Some (mm, r5) \<Rightarrow>
                         (case r5 of
                            [] \<Rightarrow> Some (hh, mm, 0, 0)
                          | c2 # r6 \<Rightarrow>
                              if c2 \<noteq> CHR '':'' then None
                              else (case parse_digits 2 r6 0 of
                                      None \<Rightarrow> None
                                    | Some (ss, r8) \<Rightarrow>
                                        (case r8 of
                                           [] \<Rightarrow> Some (hh, mm, ss, 0)
                                         | c3 # r9 \<Rightarrow>
                                             if c3 \<noteq> CHR ''.'' then None
                                             else if length r9 = 3 then
                                               (case parse_digits 3 r9 0 of
                                                  None \<Rightarrow> None
                                                | Some (ff, _) \<Rightarrow> Some (hh, mm, ss, ff * 1000))
                                             else if length r9 = 6 then
                                               (case parse_digits 6 r9 0 of
                                                  None \<Rightarrow> None
                                                | Some (ff, _) \<Rightarrow> Some (hh, mm, ss, ff))
                                             else None))))))"

text \<open>
  The time of day and the offset from UTC in microseconds (\<open>None\<close>: a naive time). The
  offset starts at the first sign character; \<open>timezone\<close> wants it strictly between
  minus and plus 24 hours.
\<close>

definition is_sign :: "char \<Rightarrow> bool" where
  "is_sign c = (c = CHR ''+'' \<or> c = CHR ''-'')"

definition parse_isoformat_time ::
  "string \<Rightarrow> ((nat \<times> nat \<times> nat \<times> nat) \<times> int option) option" where
  "parse_isoformat_time tstr =
     (let timestr = takeWhile (\<lambda>c. \<not> is_sign c) tstr;
          tail = dropWhile (\<lambda>c. \<not> is_sign c) tstr
      in case parse_hh_mm_ss_ff timestr of
           None \<Rightarrow> None
         | Some time_comps \<Rightarrow>
             (case tail of
                [] \<Rightarrow> Some (time_comps, None)
              | sign # tzstr \<Rightarrow>
                  if length tzstr \<notin> {5, 8, 15} then None
                  else (case parse_hh_mm_ss_ff tzstr of
                          None \<Rightarrow> None
                        | Some (tzh, tzm, tzs, tzus) \<Rightarrow>
                            let td = int (((tzh * 60 + tzm) * 60 + tzs) * 1000000 + tzus);
                                tzsign = (if sign = CHR ''-'' then - 1 else 1)
                            in if td < 24 * 3600 * 1000000 then Some (time_comps, Some (tzsign * td))
                               else None)))"

record datetime =
  year :: nat
  month :: nat
  day :: nat
  hour :: nat
  minute :: nat
  second :: nat
  microsecond :: nat
  utcoffset :: "int option"

record date =
  date_year :: nat
  date_month :: nat
  date_day :: nat

definition is_leap :: "nat \<Rightarrow> bool" where
  "is_leap y = (y mod 4 = 0 \<and> (y mod 100 \<noteq> 0 \<or> y mod 400 = 0))"

definition days_in_month :: "nat \<Rightarrow> nat \<Rightarrow> nat" where
  "days_in_month y m =
     (if m = 2 \<and> is_leap y then 29
      else [31, 28, 31, 30, 31, 30, 31, 31, 30, 31, 30, 31] ! (m - 1))"

definition fromisoformat_documented :: "json \<Rightarrow> error + datetime" where
  "fromisoformat_documented date_string =
     (case date_string of
        JStr s \<Rightarrow>
          (case parse_isoformat_date (take 10 s) of
             None \<Rightarrow> Inl ValueError
           | Some (y, m, d) \<Rightarrow>
               (case (if length s > 10 then parse_isoformat_time (drop 11 s)
                      else Some ((0, 0, 0, 0), None)) of
                  None \<Rightarrow> Inl ValueError
                | Some ((hh, mm, ss, us), tz) \<Rightarrow>
                    if 1 \<le> y \<and> y \<le> 9999 \<and> 1 \<le> m \<and> m \<le> 12
                       \<and> 1 \<le> d \<and> d \<le> days_in_month y m
                       \<and> hh \<le> 23 \<and> mm \<le> 59 \<and> ss \<le> 59 \<and> us \<le> 999999
                    then Inr \<lparr>year = y, month = m, day = d, hour = hh, minute = mm,
                              second = ss, microsecond = us, utcoffset = tz\<rparr>
                    else Inl ValueError))
      | _ \<Rightarrow> Inl TypeError)"

definition date_of :: "datetime \<Rightarrow> date" where
  "date_of dt = \<lparr>date_year = year dt, date_month = month dt, date_day = day dt\<rparr>"

text \<open>\<open>str(date)\<close> is \<open>'%04d-%02d-%02d' % (year, month, day)\<close>.\<close>

definition str_date :: "date \<Rightarrow> string" where
  "str_date d =
     zero_padded 4 (date_year d) @ ''-'' @ zero_padded 2 (date_month d) @ ''-''
     @ zero_padded 2 (date_day d)"

subsection \<open>\<open>uuid.uuid4()\<close> and \<open>str\<close> of a UUID\<close>

text \<open>
  The outside world of a client: the upstream service, which answers a request knowing
  the requests it got before (or the transport fails), the operating system's random
  bytes, \<open>urandom k\<close> being the 16 bytes of the \<open>k\<close>-th draw as a big-endian number,
  and \<open>datetime.fromisoformat\<close> of the installed standard library.
\<close>

datatype http_method = GET | POST

datatype param = PNone | PInt int | PStr string

record request =
  verb :: http_method
  url :: string
  headers :: "(string \<times> string) list"
  params :: "(string \<times> param) list"
  data :: "(string \<times> string) list"

record response =
  status_code :: int
  parsed :: "json option"

record env =
  upstream :: "request list \<Rightarrow> request \<Rightarrow> error + response"
  urandom :: "nat \<Rightarrow> 128 word"
  fromisoformat :: "json \<Rightarrow> error + datetime"

text \<open>
  What an operation changes: the requests sent so far, the number of random draws made,
  and the lines printed.
\<close>

record world =
  sent :: "request list"
  draws :: nat
  stdout :: "string list"

text \<open>
  \<open>uuid.uuid4()\<close> is \<open>UUID(bytes=os.urandom(16), version=4)\<close>: the constructor
  clears and sets the variant bits, then the version bits.
\<close>

definition uuid4 :: "env \<Rightarrow> world \<Rightarrow> 128 word \<times> world" where
  "uuid4 e w =
     (let int0 = urandom e (draws w);
          int1 = (int0 AND NOT (push_bit 48 0xc000)) OR push_bit 48 0x8000;
          int2 = (int1 AND NOT (push_bit 64 0xf000)) OR push_bit 76 4
      in (int2, w\<lparr>draws := draws w + 1\<rparr>))"

definition hex_char :: "nat \<Rightarrow> char" where
  "hex_char d = ''0123456789abcdef'' ! d"

text \<open>\<open>'%032x' % int\<close>: the 32 hexadecimal digits, most significant first.\<close>

definition hex32 :: "128 word \<Rightarrow> string" where
  "hex32 v = map (\<lambda>i. hex_char (unat (drop_bit (4 * (31 - i)) v AND 0xf))) [0..<32]"

definition str_uuid :: "128 word \<Rightarrow> string" where
  "str_uuid u =
     (let hex = hex32 u
      in take 8 hex @ ''-'' @ take 4 (drop 8 hex) @ ''-'' @ take 4 (drop 12 hex) @ ''-''
         @ take 4 (drop 16 hex) @ ''-'' @ drop 20 hex)"

section \<open>The client: \<open>class LuxmedApi\<close>\<close>

text \<open>
  Modelled from the spec: \<open>config_loader.read_configuration\<close> is not among the sources;
  the spec says it supplies the three values \<open>username\<close>, \<open>password\<close> and
  \<open>language\<close>, which \<open>__init__\<close> stores in \<open>self._config\<close>.
\<close>

record config =
  username :: string
  password :: string
  language :: string

text \<open>
  The class attribute \<open>_CUSTOM_USER_AGENT\<close> is computed once, when the class is
  created, from two UUIDs and \<open>random.randint(23, 29)\<close>.
\<close>

definition CUSTOM_USER_AGENT :: "128 word \<Rightarrow> int \<Rightarrow> 128 word \<Rightarrow> string" where
  "CUSTOM_USER_AGENT u1 n u2 =
     ''Patient Portal; 3.20.5; '' @ str_uuid u1 @ ''; Android; '' @ str_int n @ ''; ''
     @ str_uuid u2"

definition API_BASE_URL :: string where
  "API_BASE_URL = ''https://portalpacjenta.luxmed.pl/PatientPortalMobileAPI/api''"

text \<open>
  A client object: the two UUIDs and the number its class drew for the class attribute,
  and \<open>self._config\<close>.
\<close>

record luxmed_api =
  agent_uuid1 :: "128 word"
  agent_number :: int
  agent_uuid2 :: "128 word"
  self_config :: config

definition custom_user_agent :: "luxmed_api \<Rightarrow> string" where
  "custom_user_agent self =
     CUSTOM_USER_AGENT (agent_uuid1 self) (agent_number self) (agent_uuid2 self)"

definition print :: "string \<Rightarrow> world \<Rightarrow> world" where
  "print line w = w\<lparr>stdout := stdout w @ [line]\<rparr>"

text \<open>
  What \<open>requests\<close> and the HTTP library under it do with the headers before anything
  is sent. \<open>requests\<close> wants every header value to match
  \<^verbatim>\<open>^\S[^\r\n]*$|^$\<close> and raises \<open>InvalidHeader\<close> otherwise (\<open>$\<close> also matches
  before a newline that ends the string); \<open>http.client\<close> then raises \<open>ValueError\<close> on
  a value with a line feed that no space or tab follows, or a carriage return that no
  space, tab or line feed follows.
\<close>

definition isspace :: "char \<Rightarrow> bool" where
  "isspace c \<longleftrightarrow> (of_char c :: nat) \<in> {9, 10, 11, 12, 13, 28, 29, 30, 31, 32, 133, 160}"

definition no_crlf :: "string \<Rightarrow> bool" where
  "no_crlf s \<longleftrightarrow> CHR 0x0D \<notin> set s \<and> CHR 0x0A \<notin> set s"

definition check_header_validity :: "string \<Rightarrow> bool" where
  "check_header_validity v =
     (let s = (if v \<noteq> [] \<and> last v = CHR 0x0A then butlast v else v)
      in s = [] \<or> (\<not> isspace (hd s) \<and> no_crlf s))"

fun is_illegal_header_value :: "string \<Rightarrow> bool" where
  "is_illegal_header_value [] = False"
| "is_illegal_header_value (c # rest) =
     ((c = CHR 0x0A \<and> (rest = [] \<or> hd rest \<notin> {CHR '' '', CHR 0x09}))
      \<or> (c = CHR 0x0D \<and> (rest = [] \<or> hd rest \<notin> {CHR '' '', CHR 0x09, CHR 0x0A}))
      \<or> is_illegal_header_value rest)"

definition check_headers :: "(string \<times> string) list \<Rightarrow> error + unit" where
  "check_headers hs =
     (if list_ex (\<lambda>h. \<not> check_header_validity (snd h)) hs then Inl InvalidHeader
      else if list_ex (\<lambda>h. is_illegal_header_value (snd h)) hs then Inl ValueError
      else Inr ())"

text \<open>
  \<open>requests.post\<close> and \<open>requests.get\<close>: when the headers pass, the request is
  recorded as sent, and answered by the upstream service (or the transport raises).
\<close>

definition requests_post ::
  "env \<Rightarrow> string \<Rightarrow> (string \<times> string) list \<Rightarrow> (string \<times> string) list \<Rightarrow> world
   \<Rightarrow> (error + response) \<times> world" where
  "requests_post e u hs body w =
     (case check_headers hs of
        Inl err \<Rightarrow> (Inl err, w)
      | Inr _ \<Rightarrow>
          (let r = \<lparr>verb = POST, url = u, headers = hs, params = [], data = body\<rparr>
           in (upstream e (sent w) r, w\<lparr>sent := sent w @ [r]\<rparr>)))"

definition requests_get ::
  "env \<Rightarrow> string \<Rightarrow> (string \<times> string) list \<Rightarrow> (string \<times> param) list \<Rightarrow> world
   \<Rightarrow> (error + response) \<times> world" where
  "requests_get e u hs ps w =
     (case check_headers hs of
        Inl err \<Rightarrow> (Inl err, w)
      | Inr _ \<Rightarrow>
          (let r = \<lparr>verb = GET, url = u, headers = hs, params = ps, data = []\<rparr>
           in (upstream e (sent w) r, w\<lparr>sent := sent w @ [r]\<rparr>)))"

text \<open>\<open>response.json()\<close> raises when the body is not a JSON text.\<close>

definition response_json :: "response \<Rightarrow> error + json" where
  "response_json response =
     (case parsed response of None \<Rightarrow> Inl JSONDecodeError | Some j \<Rightarrow> Inr j)"

definition validate_response :: "response \<Rightarrow> error + unit" where
  "validate_response response =
     (if status_code response \<noteq> 200 then
        (case response_json response of
           Inl err \<Rightarrow> Inl err
         | Inr body \<Rightarrow> Inl (LuxmedApiException body))
      else Inr ())"

definition prepare_authentication_body ::
  "env \<Rightarrow> luxmed_api \<Rightarrow> world \<Rightarrow> (string \<times> string) list \<times> world" where
  "prepare_authentication_body e self w =
     (let (u1, w1) = uuid4 e w;
          (u2, w2) = uuid4 e w1
      in ([(''username'', username (self_config self)),
           (''password'', password (self_config self)),
           (''grant_type'', ''password''),
           (''account_id'', take 35 (str_uuid u1)),
           (''client_id'', str_uuid u2)], w2))"

definition get_access_token :: "env \<Rightarrow> luxmed_api \<Rightarrow> world \<Rightarrow> (error + json) \<times> world" where
  "get_access_token e self w =
     (let w1 = print ''Retrieving an access token from the Luxmed API...'' w;
          hs = [(''Api-Version'', ''2.0''),
                (''accept-language'', language (self_config self)),
                (''Content-Type'', ''application/x-www-form-urlencoded''),
                (''accept-encoding'', ''gzip''),
                (''x-api-client-identifier'', ''Android''),
                (''User-Agent'', ''okhttp/3.11.0''),
                (''Custom-User-Agent'', custom_user_agent self)];
          (authentication_body, w2) = prepare_authentication_body e self w1;
          (r, w3) = requests_post e (API_BASE_URL @ ''/token'') hs authentication_body w2
      in case r of
           Inl err \<Rightarrow> (Inl err, w3)
         | Inr response \<Rightarrow>
             (case validate_response response of
                Inl err \<Rightarrow> (Inl err, w3)
              | Inr _ \<Rightarrow>
                  let w4 = print ''The access token has been successfully retrieved'' w3
                  in (case response_json response of
                        Inl err \<Rightarrow> (Inl err, w4)
                      | Inr body \<Rightarrow> (getitem body ''access_token'', w4))))"

text \<open>\<open>"Bearer " + access_token\<close> is a \<open>TypeError\<close> unless the token is a \<open>str\<close>.\<close>

definition prepare_headers ::
  "env \<Rightarrow> luxmed_api \<Rightarrow> string \<Rightarrow> world \<Rightarrow> (error + (string \<times> string) list) \<times> world" where
  "prepare_headers e self api_version w =
     (case get_access_token e self w of
        (Inl err, w1) \<Rightarrow> (Inl err, w1)
      | (Inr access_token, w1) \<Rightarrow>
          (case access_token of
             JStr tok \<Rightarrow>
               (Inr [(''Authorization'', ''Bearer '' @ tok),
                     (''Api-Version'', api_version),
                     (''accept-language'', language (self_config self)),
                     (''Content-Type'', ''application/json; charset=UTF-8''),
                     (''accept-encoding'', ''gzip''),
                     (''x-api-client-identifier'', ''Android''),
                     (''User-Agent'', ''okhttp/3.11.0''),
                     (''Custom-User-Agent'', custom_user_agent self)], w1)
           | _ \<Rightarrow> (Inl TypeError, w1)))"

definition send_request_for_filters ::
  "env \<Rightarrow> luxmed_api \<Rightarrow> (string \<times> param) list \<Rightarrow> world \<Rightarrow> (error + json) \<times> world" where
  "send_request_for_filters e self ps w =
     (case prepare_headers e self ''3.0'' w of
        (Inl err, w1) \<Rightarrow> (Inl err, w1)
      | (Inr hs, w1) \<Rightarrow>
          (case requests_get e (API_BASE_URL @ ''/visits/available-terms/reservation-filter'')
                  hs ps w1 of
             (Inl err, w2) \<Rightarrow> (Inl err, w2)
           | (Inr response, w2) \<Rightarrow>
               (case validate_response response of
                  Inl err \<Rightarrow> (Inl err, w2)
                | Inr _ \<Rightarrow> (response_json response, w2))))"

text \<open>
  The loop of \<open>get_cities\<close>, \<open>get_services\<close> and \<open>get_clinics\<close> (the same loop
  three times, up to the names of its variables): \<open>found\<close> is the list appended to.
\<close>

fun id_name_loop :: "(json \<times> json) list \<Rightarrow> json list \<Rightarrow> error + (json \<times> json) list" where
  "id_name_loop found [] = Inr found"
| "id_name_loop found (item # rest) =
     (case getitem item ''Id'' of
        Inl err \<Rightarrow> Inl err
      | Inr item_id \<Rightarrow>
          (case getitem item ''Name'' of
             Inl err \<Rightarrow> Inl err
           | Inr item_name \<Rightarrow> id_name_loop (found @ [(item_id, item_name)]) rest))"

text \<open>\<open>for item in response_body[key]\<close> with an empty result list.\<close>

definition id_names :: "json \<Rightarrow> string \<Rightarrow> error + (json \<times> json) list" where
  "id_names response_body key =
     (case getitem response_body key of
        Inl err \<Rightarrow> Inl err
      | Inr arr \<Rightarrow> (case iter arr of Inl err \<Rightarrow> Inl err | Inr items \<Rightarrow> id_name_loop [] items))"

definition get_cities :: "env \<Rightarrow> luxmed_api \<Rightarrow> world \<Rightarrow> (error + (json \<times> json) list) \<times> world" where
  "get_cities e self w =
     (let w0 = print ''Retrieving cities from the Luxmed API...'' w
      in case send_request_for_filters e self [] w0 of
           (Inl err, w1) \<Rightarrow> (Inl err, w1)
         | (Inr response_body, w1) \<Rightarrow> (id_names response_body ''Cities'', w1))"

definition get_services ::
  "env \<Rightarrow> luxmed_api \<Rightarrow> int \<Rightarrow> world \<Rightarrow> (error + (json \<times> json) list) \<times> world" where
  "get_services e self city_id w =
     (let w0 = print ''Retrieving services from the Luxmed API...'' w;
          ps = [(''filter.cityId'', PInt city_id)]
      in case send_request_for_filters e self ps w0 of
           (Inl err, w1) \<Rightarrow> (Inl err, w1)
         | (Inr response_body, w1) \<Rightarrow> (id_names response_body ''Services'', w1))"

definition get_clinics ::
  "env \<Rightarrow> luxmed_api \<Rightarrow> int \<Rightarrow> world \<Rightarrow> (error + (json \<times> json) list) \<times> world" where
  "get_clinics e self city_id w =
     (let w0 = print ''Retrieving clinics from the Luxmed API...'' w;
          ps = [(''filter.cityId'', PInt city_id)]
      in case send_request_for_filters e self ps w0 of
           (Inl err, w1) \<Rightarrow> (Inl err, w1)
         | (Inr response_body, w1) \<Rightarrow> (id_names response_body ''Clinics'', w1))"

text \<open>
  The values \<open>get_visits\<close> returns: a list of dicts \<open>{'date', 'visits'}\<close>, the visits of
  a day being dicts \<open>{'time', 'doctor_name', 'clinic_name'}\<close>.
\<close>

record visit =
  time :: json
  doctor_name :: json
  clinic_name :: json

record visits_in_day =
  date :: string
  visits :: "visit list"

text \<open>The inner loop of \<open>get_visits\<close>, over the slots of one day.\<close>

fun current_day_loop :: "visit list \<Rightarrow> json list \<Rightarrow> error + visit list" where
  "current_day_loop current_day_visits [] = Inr current_day_visits"
| "current_day_loop current_day_visits (current_visit # rest) =
     (case getitem current_visit ''FormattedVisitHour'' of
        Inl err \<Rightarrow> Inl err
      | Inr visit_time \<Rightarrow>
          (case getitem current_visit ''Doctor'' of
             Inl err \<Rightarrow> Inl err
           | Inr doctor \<Rightarrow>
               (case getitem doctor ''Name'' of
                  Inl err \<Rightarrow> Inl err
                | Inr doctor_name' \<Rightarrow>
                    (case getitem current_visit ''Clinic'' of
                       Inl err \<Rightarrow> Inl err
                     | Inr clinic \<Rightarrow>
                         (case getitem clinic ''Name'' of
                            Inl err \<Rightarrow> Inl err
                          | Inr clinic_name' \<Rightarrow>
                              current_day_loop
                                (current_day_visits
                                 @ [\<lparr>time = visit_time, doctor_name = doctor_name',
                                      clinic_name = clinic_name'\<rparr>])
                                rest)))))"

text \<open>The outer loop of \<open>get_visits\<close>, over the day-groups.\<close>

fun found_visits_loop ::
  "env \<Rightarrow> visits_in_day list \<Rightarrow> json list \<Rightarrow> error + visits_in_day list" where
  "found_visits_loop e found_visits [] = Inr found_visits"
| "found_visits_loop e found_visits (visits_in_current_day # rest) =
     (case getitem visits_in_current_day ''AvailableVisitsTermPresentation'' of
        Inl err \<Rightarrow> Inl err
      | Inr presentation \<Rightarrow>
          (case iter presentation of
             Inl err \<Rightarrow> Inl err
           | Inr slots \<Rightarrow>
               (case current_day_loop [] slots of
                  Inl err \<Rightarrow> Inl err
                | Inr current_day_visits \<Rightarrow>
                    (case getitem visits_in_current_day ''VisitDate'' of
                       Inl err \<Rightarrow> Inl err
                     | Inr visit_date \<Rightarrow>
                         (case getitem visit_date ''StartDateTime'' of
                            Inl err \<Rightarrow> Inl err
                          | Inr date_with_time \<Rightarrow>
                              (case fromisoformat e date_with_time of
                                 Inl err \<Rightarrow> Inl err
                               | Inr dt \<Rightarrow>
                                   found_visits_loop e
                                     (found_visits
                                      @ [\<lparr>date = str_date (date_of dt),
                                           visits = current_day_visits\<rparr>])
                                     rest))))))"

text \<open>An optional \<open>int\<close> argument as a query parameter value: \<open>None\<close> stays \<open>None\<close>.\<close>

definition optional_int :: "int option \<Rightarrow> param" where
  "optional_int v = (case v of None \<Rightarrow> PNone | Some i \<Rightarrow> PInt i)"

definition get_visits ::
  "env \<Rightarrow> luxmed_api \<Rightarrow> int \<Rightarrow> int \<Rightarrow> string \<Rightarrow> string \<Rightarrow> int option \<Rightarrow> int option \<Rightarrow> world
   \<Rightarrow> (error + visits_in_day list) \<times> world" where
  "get_visits e self city_id service_id from_date to_date clinic_id doctor_id w =
     (let w0 = print ''Getting visits for given search parameters...'' w
      in case prepare_headers e self ''2.0'' w0 of
           (Inl err, w1) \<Rightarrow> (Inl err, w1)
         | (Inr hs, w1) \<Rightarrow>
             (let ps = [(''filter.cityId'', PInt city_id),
                        (''filter.serviceId'', PInt service_id),
                        (''filter.clinicId'', optional_int clinic_id),
                        (''filter.fromDate'', PStr from_date),
                        (''filter.toDate'', PStr to_date)]
              in case requests_get e (API_BASE_URL @ ''/visits/available-terms'') hs ps w1 of
                   (Inl err, w2) \<Rightarrow> (Inl err, w2)
                 | (Inr response, w2) \<Rightarrow>
                     (case validate_response response of
                        Inl err \<Rightarrow> (Inl err, w2)
                      | Inr _ \<Rightarrow>
                          (case response_json response of
                             Inl err \<Rightarrow> (Inl err, w2)
                           | Inr raw_visits \<Rightarrow>
                               (case getitem raw_visits ''AgregateAvailableVisitTerms'' of
                                  Inl err \<Rightarrow> (Inl err, w2)
                                | Inr normal_visits \<Rightarrow>
                                    (case iter normal_visits of
                                       Inl err \<Rightarrow> (Inl err, w2)
                                     | Inr groups \<Rightarrow> (found_visits_loop e [] groups, w2)))))))"

section \<open>Observing a run\<close>

text \<open>
  The terms the properties are stated in. \<open>reply e w k\<close> is the answer the \<open>k\<close>-th
  request sent in \<open>w\<close> got: the upstream service's, given the requests before it.
  \<open>new_requests w w'\<close> are the requests sent between the worlds \<open>w\<close> and \<open>w'\<close>.
\<close>

definition reply :: "env \<Rightarrow> world \<Rightarrow> nat \<Rightarrow> error + response" where
  "reply e w k = upstream e (take k (sent w)) (sent w ! k)"


definition header :: "request \<Rightarrow> string \<Rightarrow> string option" where
  "header r name = map_of (headers r) name"

text \<open>
  The bearer token an answer of the token endpoint grants: the answer has status 200,
  a JSON object for its body and a \<open>str\<close> under \<open>access_token\<close>.
\<close>

definition granted_token :: "error + response \<Rightarrow> string option" where
  "granted_token r =
     (case r of
        Inl _ \<Rightarrow> None
      | Inr response \<Rightarrow>
          if status_code response = 200 then
            (case parsed response of
               None \<Rightarrow> None
             | Some body \<Rightarrow>
                 (case getitem body ''access_token'' of
                    Inr (JStr tok) \<Rightarrow> Some tok
                  | _ \<Rightarrow> None))
          else None)"

text \<open>The exception an operation ended with, if any, whatever it would have returned.\<close>

definition raised :: "(error + 'a) \<times> world \<Rightarrow> error option" where
  "raised run = (case fst run of Inl err \<Rightarrow> Some err | Inr _ \<Rightarrow> None)"

text \<open>\<open>obj[k1][k2]\<close>.\<close>

definition getitem2 :: "json \<Rightarrow> string \<Rightarrow> string \<Rightarrow> error + json" where
  "getitem2 obj k1 k2 = (case getitem obj k1 of Inl err \<Rightarrow> Inl err | Inr v \<Rightarrow> getitem v k2)"

text \<open>
  The date portion of a day-group's timestamp: the date the installed library reads in
  it, written as \<open>str\<close> writes a date.
\<close>

definition group_date :: "env \<Rightarrow> json \<Rightarrow> string option" where
  "group_date e day_group =
     (case getitem2 day_group ''VisitDate'' ''StartDateTime'' of
        Inl _ \<Rightarrow> None
      | Inr ts \<Rightarrow>
          (case fromisoformat e ts of
             Inl _ \<Rightarrow> None
           | Inr dt \<Rightarrow> Some (str_date (date_of dt))))"

text \<open>
  For a timestamp of the form \<open>YYYY-MM-DD*HH:MM:SS\<close> the date portion is, in the spec's
  words, what stands before the time: the first ten characters. \<open>reads_documented\<close>
  says that the installed library reads a day-group's timestamp as that form.
\<close>

definition date_portion :: "json \<Rightarrow> string option" where
  "date_portion ts = (case ts of JStr s \<Rightarrow> Some (take 10 s) | _ \<Rightarrow> None)"

definition group_date_portion :: "json \<Rightarrow> string option" where
  "group_date_portion day_group =
     (case getitem2 day_group ''VisitDate'' ''StartDateTime'' of
        Inl _ \<Rightarrow> None
      | Inr ts \<Rightarrow> date_portion ts)"

definition reads_documented :: "env \<Rightarrow> json \<Rightarrow> bool" where
  "reads_documented e day_group \<longleftrightarrow>
     (case getitem2 day_group ''VisitDate'' ''StartDateTime'' of
        Inl _ \<Rightarrow> False
      | Inr ts \<Rightarrow> fromisoformat e ts = fromisoformat_documented ts)"


text \<open>
  A header value the HTTP stack sends: it is empty or starts with no white space, and holds
  no carriage return and no line feed that the checks above refuse.
\<close>

definition sendable :: "string \<Rightarrow> bool" where
  "sendable v \<longleftrightarrow> check_header_validity v \<and> \<not> is_illegal_header_value v"

text \<open>The request \<open>_get_access_token\<close> makes when called in \<open>w\<close>.\<close>

definition token_request :: "env \<Rightarrow> luxmed_api \<Rightarrow> world \<Rightarrow> request" where
  "token_request e self w =
     \<lparr>verb = POST, url = API_BASE_URL @ ''/token'',
      headers = [(''Api-Version'', ''2.0''),
                 (''accept-language'', language (self_config self)),
                 (''Content-Type'', ''application/x-www-form-urlencoded''),
                 (''accept-encoding'', ''gzip''),
                 (''x-api-client-identifier'', ''Android''),
                 (''User-Agent'', ''okhttp/3.11.0''),
                 (''Custom-User-Agent'', custom_user_agent self)],
      params = [], data = fst (prepare_authentication_body e self w)\<rparr>"

text \<open>
  The steps \<open>_send_request_for_filters\<close> and \<open>get_visits\<close> have in common: the
  headers for an API version, one GET, validation, the parsed body.
\<close>

definition fetch ::
  "env \<Rightarrow> luxmed_api \<Rightarrow> string \<Rightarrow> string \<Rightarrow> (string \<times> param) list \<Rightarrow> world
   \<Rightarrow> (error + json) \<times> world" where
  "fetch e self api_version u ps w =
     (case prepare_headers e self api_version w of
        (Inl err, w1) \<Rightarrow> (Inl err, w1)
      | (Inr hs, w1) \<Rightarrow>
          (case requests_get e u hs ps w1 of
             (Inl err, w2) \<Rightarrow> (Inl err, w2)
           | (Inr response, w2) \<Rightarrow>
               (case validate_response response of
                  Inl err \<Rightarrow> (Inl err, w2)
                | Inr _ \<Rightarrow> (response_json response, w2))))"

text \<open>
  The four public operations with their arguments; \<open>run\<close> calls one and keeps the
  exception it ended with and the world it left. \<open>endpoint\<close> is the URL an operation
  asks for its data.
\<close>

datatype operation =
    Get_cities
  | Get_services int
  | Get_clinics int
  | Get_visits int int string string "int option" "int option"

definition run :: "env \<Rightarrow> luxmed_api \<Rightarrow> operation \<Rightarrow> world \<Rightarrow> error option \<times> world" where
  "run e self op w =
     (case op of
        Get_cities \<Rightarrow> (raised (get_cities e self w), snd (get_cities e self w))
      | Get_services city_id \<Rightarrow>
          (raised (get_services e self city_id w), snd (get_services e self city_id w))
      | Get_clinics city_id \<Rightarrow>
          (raised (get_clinics e self city_id w), snd (get_clinics e self city_id w))
      | Get_visits city_id service_id from_date to_date clinic_id doctor_id \<Rightarrow>
          (raised (get_visits e self city_id service_id from_date to_date clinic_id doctor_id w),
           snd (get_visits e self city_id service_id from_date to_date clinic_id doctor_id w)))"



text \<open>A returned visit holds the three fields of an upstream slot.\<close>

definition slot_matches :: "json \<Rightarrow> visit \<Rightarrow> bool" where
  "slot_matches slot v \<longleftrightarrow>
     getitem slot ''FormattedVisitHour'' = Inr (time v)
     \<and> getitem2 slot ''Doctor'' ''Name'' = Inr (doctor_name v)
     \<and> getitem2 slot ''Clinic'' ''Name'' = Inr (clinic_name v)"

text \<open>
  A returned day holds the date portion of an upstream day-group and, slot by slot, the
  visits of its slot array.
\<close>

definition day_matches :: "env \<Rightarrow> json \<Rightarrow> visits_in_day \<Rightarrow> bool" where
  "day_matches e day_group d \<longleftrightarrow>
     group_date e day_group = Some (date d)
     \<and> (reads_documented e day_group \<longrightarrow> group_date_portion day_group = Some (date d))
     \<and> (\<forall>slots. getitem day_group ''AvailableVisitsTermPresentation'' = Inr (JArr slots) \<longrightarrow>
           length (visits d) = length slots
           \<and> (\<forall>j<length slots. slot_matches (slots ! j) (visits d ! j)))"

section \<open>Example runs\<close>

text \<open>
  An upstream service that grants the token \<open>abc\<close>, lists two cities, three services
  (one of them twice, and not in order) and a clinic, and has two days with one slot each (the scenario of the spec).
\<close>

definition token_body :: json where
  "token_body = JObj [(''access_token'', JStr ''abc''), (''token_type'', JStr ''bearer'')]"

definition service_items :: "json list" where
  "service_items = [JObj [(''Id'', JInt 9), (''Name'', JStr ''Okulista'')],
                    JObj [(''Id'', JInt 2), (''Name'', JStr ''Internista'')],
                    JObj [(''Id'', JInt 2), (''Name'', JStr ''Internista'')]]"

definition filters_body :: json where
  "filters_body =
     JObj [(''Cities'', JArr [JObj [(''Id'', JInt 1), (''Name'', JStr ''Warszawa'')],
                              JObj [(''Id'', JInt 5), (''Name'', JStr ''Krakow'')]]),
           (''Services'', JArr service_items),
           (''Clinics'', JArr [JObj [(''Id'', JInt 7), (''Name'', JStr ''LX Centrum'')]])]"

definition slot_a :: json where
  "slot_a = JObj [(''FormattedVisitHour'', JStr ''09:00''),
                  (''Doctor'', JObj [(''Name'', JStr ''Anna Nowak'')]),
                  (''Clinic'', JObj [(''Name'', JStr ''LX Centrum'')])]"

definition slot_b :: json where
  "slot_b = JObj [(''FormattedVisitHour'', JStr ''14:30''),
                  (''Doctor'', JObj [(''Name'', JStr ''Jan Kowalski'')]),
                  (''Clinic'', JObj [(''Name'', JStr ''LX Mokotow'')])]"

definition day_groups :: "json list" where
  "day_groups =
     [JObj [(''AvailableVisitsTermPresentation'', JArr [slot_a]),
            (''VisitDate'', JObj [(''StartDateTime'', JStr ''2024-03-01T09:00:00'')])],
      JObj [(''AvailableVisitsTermPresentation'', JArr [slot_b]),
            (''VisitDate'', JObj [(''StartDateTime'', JStr ''2024-03-02T14:30:00'')])]]"

definition visits_body :: json where
  "visits_body = JObj [(''AgregateAvailableVisitTerms'', JArr day_groups)]"

text \<open>What the visit search is to return for these two days.\<close>

definition expected_visits :: "visits_in_day list" where
  "expected_visits =
     [\<lparr>date = ''2024-03-01'',
       visits = [\<lparr>time = JStr ''09:00'', doctor_name = JStr ''Anna Nowak'',
                  clinic_name = JStr ''LX Centrum''\<rparr>]\<rparr>,
      \<lparr>date = ''2024-03-02'',
       visits = [\<lparr>time = JStr ''14:30'', doctor_name = JStr ''Jan Kowalski'',
                  clinic_name = JStr ''LX Mokotow''\<rparr>]\<rparr>]"

definition error_body :: json where
  "error_body = JObj [(''Message'', JStr ''Authorization has been denied for this request.'')]"

definition ok :: "json \<Rightarrow> error + response" where
  "ok body = Inr \<lparr>status_code = 200, parsed = Some body\<rparr>"

definition denied :: "error + response" where
  "denied = Inr \<lparr>status_code = 401, parsed = Some error_body\<rparr>"

definition serving :: "request list \<Rightarrow> request \<Rightarrow> error + response" where
  "serving history r =
     (if verb r = POST then ok token_body
      else if url r = API_BASE_URL @ ''/visits/available-terms'' then ok visits_body
      else ok filters_body)"



text \<open>
  Random bytes: the draws are pairwise different numbers; the third draw differs from the
  first in its last bit only. The installed library is one that reads the documented
  format and nothing else.
\<close>

definition random_bytes :: "nat \<Rightarrow> 128 word" where
  "random_bytes k = (if k = 2 then 0x123e4567e89b12d3a456426614174001
                     else 0x123e4567e89b12d3a456426614174000 + push_bit 8 (of_nat k))"

definition env_serving :: env where
  "env_serving = \<lparr>upstream = serving, urandom = random_bytes,
                   fromisoformat = fromisoformat_documented\<rparr>"



definition client :: luxmed_api where
  "client = \<lparr>agent_uuid1 = 1, agent_number = 25, agent_uuid2 = 2,
             self_config = \<lparr>username = ''user'', password = ''secret'', language = ''pl''\<rparr>\<rparr>"

definition world0 :: world where
  "world0 = \<lparr>sent = [], draws = 0, stdout = []\<rparr>"

text \<open>A gateway's answer whose body is an HTML page, not a JSON text.\<close>

definition bad_gateway :: response where
  "bad_gateway = \<lparr>status_code = 502, parsed = None\<rparr>"

section \<open>Facts about the library functions\<close>

text \<open>
  Reading decimal digits and writing them back with \<open>%0wd\<close> gives the same characters,
  so the \<open>str\<close> of a parsed date is the first ten characters of the parsed string.
\<close>

lemma digit_val_Some: "digit_val c = Some d \<Longrightarrow> d \<le> 9 \<and> digit_char d = c"
  by (auto simp: digit_val_def digit_char_def Let_def split: if_splits)

lemma str_nat_lt10: "n < 10 \<Longrightarrow> str_nat n = [digit_char n]"
  by (subst str_nat.simps) simp

lemma str_nat_ge10: "10 \<le> n \<Longrightarrow> str_nat n = str_nat (n div 10) @ [digit_char (n mod 10)]"
  by (subst str_nat.simps) simp

lemma digit_char_0: "digit_char 0 = CHR ''0''"
  by code_simp

lemma length_str_nat_digit: "a \<le> 9 \<Longrightarrow> length (str_nat a) = 1"
  by (simp add: str_nat_lt10)

lemma zero_padded_step:
  assumes "b \<le> 9" "length (str_nat a) \<le> w"
  shows "zero_padded (Suc w) (a * 10 + b) = zero_padded w a @ [digit_char b]"
proof (cases "a = 0")
  case True
  with assms obtain w' where "w = Suc w'"
    by (cases w) (auto simp: str_nat_lt10)
  with True assms show ?thesis
    by (simp add: zero_padded_def str_nat_lt10 digit_char_0 replicate_append_same)
next
  case False
  with assms have "10 \<le> a * 10 + b" "(a * 10 + b) div 10 = a" "(a * 10 + b) mod 10 = b"
    by auto
  with assms show ?thesis
    by (simp add: zero_padded_def str_nat_ge10 Suc_diff_le Let_def)
qed

lemma zero_padded_1: "a \<le> 9 \<Longrightarrow> zero_padded (Suc 0) a = [digit_char a]"
  by (simp add: zero_padded_def str_nat_lt10)

lemma length_str_nat_step:
  "b \<le> 9 \<Longrightarrow> length (str_nat a) \<le> w \<Longrightarrow> length (str_nat (a * 10 + b)) \<le> Suc w"
  by (cases "a = 0") (simp_all add: str_nat_lt10 str_nat_ge10)

lemma zero_padded_2:
  assumes "a \<le> 9" "b \<le> 9"
  shows "zero_padded 2 (a * 10 + b) = [digit_char a, digit_char b]"
proof -
  have "length (str_nat a) \<le> Suc 0"
    using assms by (simp add: length_str_nat_digit)
  then have "zero_padded (Suc (Suc 0)) (a * 10 + b) = zero_padded (Suc 0) a @ [digit_char b]"
    by (rule zero_padded_step [OF assms(2)])
  then show ?thesis
    using assms by (simp add: zero_padded_1 numeral_2_eq_2)
qed

lemma zero_padded_4:
  assumes "a \<le> 9" "b \<le> 9" "c \<le> 9" "d \<le> 9"
  shows "zero_padded 4 (((a * 10 + b) * 10 + c) * 10 + d)
           = [digit_char a, digit_char b, digit_char c, digit_char d]"
proof -
  have l1: "length (str_nat a) \<le> Suc 0"
    using assms by (simp add: length_str_nat_digit)
  have l2: "length (str_nat (a * 10 + b)) \<le> Suc (Suc 0)"
    by (rule length_str_nat_step [OF assms(2) l1])
  have l3: "length (str_nat ((a * 10 + b) * 10 + c)) \<le> Suc (Suc (Suc 0))"
    by (rule length_str_nat_step [OF assms(3) l2])
  have "zero_padded (Suc (Suc (Suc (Suc 0)))) (((a * 10 + b) * 10 + c) * 10 + d)
          = zero_padded (Suc (Suc (Suc 0))) ((a * 10 + b) * 10 + c) @ [digit_char d]"
    by (rule zero_padded_step [OF assms(4) l3])
  also have "zero_padded (Suc (Suc (Suc 0))) ((a * 10 + b) * 10 + c)
          = zero_padded (Suc (Suc 0)) (a * 10 + b) @ [digit_char c]"
    by (rule zero_padded_step [OF assms(3) l2])
  also have "zero_padded (Suc (Suc 0)) (a * 10 + b) = zero_padded (Suc 0) a @ [digit_char b]"
    by (rule zero_padded_step [OF assms(2) l1])
  also have "zero_padded (Suc 0) a = [digit_char a]"
    by (rule zero_padded_1 [OF assms(1)])
  finally show ?thesis
    by (simp add: eval_nat_numeral)
qed

lemma parse_digits_2:
  "parse_digits 2 s 0 = Some (v, rest) \<Longrightarrow>
     \<exists>a b da db. s = a # b # rest \<and> digit_val a = Some da \<and> digit_val b = Some db \<and> v = da * 10 + db"
  by (cases s; cases "tl s") (auto simp: numeral_2_eq_2 split: option.splits)

lemma parse_digits_4:
  "parse_digits 4 s 0 = Some (v, rest) \<Longrightarrow>
     \<exists>a b c d da db dc dd. s = a # b # c # d # rest \<and> digit_val a = Some da \<and> digit_val b = Some db
        \<and> digit_val c = Some dc \<and> digit_val d = Some dd \<and> v = ((da * 10 + db) * 10 + dc) * 10 + dd"
  by (cases s; cases "tl s"; cases "tl (tl s)"; cases "tl (tl (tl s))")
     (auto simp: eval_nat_numeral split: option.splits)

lemma parse_digits_2_str:
  "parse_digits 2 s 0 = Some (v, rest) \<Longrightarrow> s = zero_padded 2 v @ rest"
proof -
  assume "parse_digits 2 s 0 = Some (v, rest)"
  then obtain a b da db where
    s: "s = a # b # rest" and
    d: "digit_val a = Some da" "digit_val b = Some db" and
    v: "v = da * 10 + db"
    by (blast dest: parse_digits_2)
  from d have le: "da \<le> 9" "db \<le> 9" and ch: "digit_char da = a" "digit_char db = b"
    by (auto dest: digit_val_Some)
  have "zero_padded 2 v = [a, b]"
    unfolding v using le ch by (simp only: zero_padded_2)
  then show ?thesis
    using s by simp
qed

lemma parse_digits_4_str:
  "parse_digits 4 s 0 = Some (v, rest) \<Longrightarrow> s = zero_padded 4 v @ rest"
proof -
  assume "parse_digits 4 s 0 = Some (v, rest)"
  then obtain a b c d da db dc dd where
    s: "s = a # b # c # d # rest" and
    d: "digit_val a = Some da" "digit_val b = Some db" "digit_val c = Some dc" "digit_val d = Some dd" and
    v: "v = ((da * 10 + db) * 10 + dc) * 10 + dd"
    by (blast dest: parse_digits_4)
  from d have le: "da \<le> 9" "db \<le> 9" "dc \<le> 9" "dd \<le> 9"
    and ch: "digit_char da = a" "digit_char db = b" "digit_char dc = c" "digit_char dd = d"
    by (auto dest: digit_val_Some)
  have "zero_padded 4 v = [a, b, c, d]"
    unfolding v using le ch by (simp only: zero_padded_4)
  then show ?thesis
    using s by simp
qed

lemma parse_isoformat_date_str:
  assumes "parse_isoformat_date dtstr = Some (y, m, d)"
  shows "dtstr = zero_padded 4 y @ ''-'' @ zero_padded 2 m @ ''-'' @ zero_padded 2 d"
  using assms unfolding parse_isoformat_date_def
  by (auto split: option.splits list.splits if_splits
           dest!: parse_digits_2_str parse_digits_4_str)

lemma fromisoformat_documented_date:
  assumes "fromisoformat_documented v = Inr dt"
  shows "\<exists>s. v = JStr s \<and> str_date (date_of dt) = take 10 s"
  using assms unfolding fromisoformat_documented_def str_date_def date_of_def
  by (auto split: json.splits option.splits if_splits dest!: parse_isoformat_date_str)


section \<open>Facts about the header checks\<close>

lemma last_LF_illegal: "v \<noteq> [] \<Longrightarrow> last v = CHR 0x0A \<Longrightarrow> is_illegal_header_value v"
  by (induction v) (auto split: if_splits)

lemma no_crlf_legal: "no_crlf v \<Longrightarrow> \<not> is_illegal_header_value v"
  by (induction v) (auto simp: no_crlf_def)

lemma sendable_iff: "sendable v \<longleftrightarrow> (v = [] \<or> \<not> isspace (hd v)) \<and> no_crlf v"
proof (cases "v \<noteq> [] \<and> last v = CHR 0x0A")
  case True
  then have "is_illegal_header_value v" "\<not> no_crlf v"
    by (auto simp: last_LF_illegal no_crlf_def dest: last_in_set)
  then show ?thesis by (simp add: sendable_def)
next
  case False
  then show ?thesis
    by (auto simp: sendable_def check_header_validity_def no_crlf_legal no_crlf_def)
qed

lemma check_headers_eq:
  "check_headers hs =
     (if \<forall>h\<in>set hs. sendable (snd h) then Inr ()
      else Inl (if list_ex (\<lambda>h. \<not> check_header_validity (snd h)) hs then InvalidHeader
                else ValueError))"
  by (auto simp: check_headers_def sendable_def list_ex_iff)

lemma sendable_literals [simp]:
  "sendable ''2.0''" "sendable ''3.0''"
  "sendable ''application/x-www-form-urlencoded''"
  "sendable ''application/json; charset=UTF-8''"
  "sendable ''gzip''" "sendable ''Android''" "sendable ''okhttp/3.11.0''"
  by (simp_all add: sendable_iff isspace_def no_crlf_def)

lemma no_crlf_append [simp]: "no_crlf (a @ b) \<longleftrightarrow> no_crlf a \<and> no_crlf b"
  by (auto simp: no_crlf_def)

lemma no_crlf_Cons:
  "no_crlf (c # s) \<longleftrightarrow> c \<noteq> CHR 0x0D \<and> c \<noteq> CHR 0x0A \<and> no_crlf s"
  by (auto simp: no_crlf_def)

lemma no_crlf_Nil [simp]: "no_crlf []"
  by (simp add: no_crlf_def)

lemma no_crlf_subset: "set s \<subseteq> set t \<Longrightarrow> no_crlf t \<Longrightarrow> no_crlf s"
  by (auto simp: no_crlf_def)

text \<open>A bearer token is sent when the token holds no carriage return and no line feed.\<close>

lemma sendable_bearer: "sendable (''Bearer '' @ tok) \<longleftrightarrow> no_crlf tok"
  by (simp add: sendable_iff isspace_def no_crlf_Cons)

lemma digit_char_no_crlf:
  assumes "d < 10"
  shows "digit_char d \<noteq> CHR 0x0D \<and> digit_char d \<noteq> CHR 0x0A"
proof -
  from assms have "(of_char (digit_char d) :: nat) = 48 + d"
    by (simp add: digit_char_def)
  with assms show ?thesis
    by auto
qed

lemma no_crlf_str_nat: "no_crlf (str_nat n)"
proof (induction n rule: str_nat.induct)
  case (1 n)
  show ?case
  proof (cases "n < 10")
    case True
    then show ?thesis
      by (subst str_nat.simps) (simp add: no_crlf_Cons digit_char_no_crlf)
  next
    case False
    with 1 have "no_crlf (str_nat (n div 10))"
      by simp
    with False show ?thesis
      by (subst str_nat.simps) (simp add: no_crlf_Cons digit_char_no_crlf)
  qed
qed

lemma no_crlf_str_int: "no_crlf (str_int i)"
  by (simp add: str_int_def no_crlf_Cons no_crlf_str_nat)

lemma low_nibble: "unat (x AND (0xf :: 128 word)) < 16"
proof -
  have "x AND 0xf \<le> 0xf"
    by (rule word_and_le1)
  then have "unat (x AND 0xf) \<le> unat (0xf :: 128 word)"
    by (simp add: word_le_nat_alt)
  then show ?thesis
    by simp
qed

lemma hex32_chars: "set (hex32 v) \<subseteq> set ''0123456789abcdef''"
proof -
  have "hex_char d \<in> set ''0123456789abcdef''" if "d < 16" for d
    unfolding hex_char_def using that by (intro nth_mem) simp
  with low_nibble show ?thesis
    by (auto simp: hex32_def)
qed

lemma no_crlf_hex32: "no_crlf (hex32 v)"
  by (rule no_crlf_subset [OF hex32_chars]) (simp add: no_crlf_Cons)

lemma no_crlf_take: "no_crlf s \<Longrightarrow> no_crlf (take n s)"
  by (auto simp: no_crlf_def dest: in_set_takeD)

lemma no_crlf_drop: "no_crlf s \<Longrightarrow> no_crlf (drop n s)"
  by (auto simp: no_crlf_def dest: in_set_dropD)

lemma no_crlf_str_uuid: "no_crlf (str_uuid u)"
  by (simp add: str_uuid_def Let_def no_crlf_Cons no_crlf_take no_crlf_drop no_crlf_hex32)

text \<open>The class attribute is always a header value that is sent.\<close>

lemma sendable_custom_user_agent [simp]: "sendable (custom_user_agent self)"
  by (simp add: sendable_iff custom_user_agent_def CUSTOM_USER_AGENT_def isspace_def
        no_crlf_Cons no_crlf_str_uuid no_crlf_str_int)

section \<open>Facts about the requests of a run\<close>


lemma uuid4_value: "draws w = draws v \<Longrightarrow> fst (uuid4 e w) = fst (uuid4 e v)"
  by (simp add: uuid4_def Let_def)

lemma prepare_authentication_body_world:
  "snd (prepare_authentication_body e self w) = w\<lparr>draws := draws w + 2\<rparr>"
  by (simp add: prepare_authentication_body_def uuid4_def Let_def split_def)

lemma prepare_authentication_body_value:
  "draws w = draws v \<Longrightarrow>
     fst (prepare_authentication_body e self w) = fst (prepare_authentication_body e self v)"
  by (simp add: prepare_authentication_body_def uuid4_def Let_def split_def)

lemma prepare_authentication_body_stdout:
  "fst (prepare_authentication_body e self (w\<lparr>stdout := out\<rparr>))
     = fst (prepare_authentication_body e self w)"
  by (rule prepare_authentication_body_value) simp

text \<open>
  A language the HTTP stack refuses as a header value ends every call before anything is
  sent; with any other language the token request goes out.
\<close>

lemma get_access_token_unsendable:
  assumes "\<not> sendable (language (self_config self))"
  shows "sent (snd (get_access_token e self w)) = sent w"
    and "\<exists>err. fst (get_access_token e self w) = Inl err"
  using assms
  by (simp_all add: get_access_token_def requests_post_def check_headers_eq print_def Let_def
        split_def prepare_authentication_body_world)

lemma get_access_token_sent:
  assumes "sendable (language (self_config self))"
  shows "sent (snd (get_access_token e self w)) = sent w @ [token_request e self w]"
  using assms
  by (simp add: token_request_def get_access_token_def requests_post_def check_headers_eq
        print_def Let_def split_def prepare_authentication_body_world
        prepare_authentication_body_stdout
      split: sum.splits)


lemma token_request_simps:
  "verb (token_request e self w) = POST"
  "url (token_request e self w) = API_BASE_URL @ ''/token''"
  "params (token_request e self w) = []"
  "data (token_request e self w) = fst (prepare_authentication_body e self w)"
  "header (token_request e self w) ''Api-Version'' = Some ''2.0''"
  by (simp_all add: token_request_def header_def)

lemma get_access_token_result:
  assumes "sendable (language (self_config self))"
  shows "fst (get_access_token e self w) =
     (case upstream e (sent w) (token_request e self w) of
        Inl err \<Rightarrow> Inl err
      | Inr response \<Rightarrow>
          (case validate_response response of
             Inl err \<Rightarrow> Inl err
           | Inr _ \<Rightarrow>
               (case response_json response of
                  Inl err \<Rightarrow> Inl err
                | Inr body \<Rightarrow> getitem body ''access_token'')))"
  using assms
  by (simp add: token_request_def get_access_token_def requests_post_def check_headers_eq
        print_def Let_def split_def prepare_authentication_body_world
        prepare_authentication_body_stdout
      split: sum.splits)

lemma token_request_eq:
  "token_request e self w =
     \<lparr>verb = POST, url = API_BASE_URL @ ''/token'',
      headers = [(''Api-Version'', ''2.0''),
                 (''accept-language'', language (self_config self)),
                 (''Content-Type'', ''application/x-www-form-urlencoded''),
                 (''accept-encoding'', ''gzip''),
                 (''x-api-client-identifier'', ''Android''),
                 (''User-Agent'', ''okhttp/3.11.0''),
                 (''Custom-User-Agent'', custom_user_agent self)],
      params = [], data = fst (prepare_authentication_body e self w)\<rparr>"
  by (simp add: token_request_def)

lemma token_request_print [simp]: "token_request e self (print line w) = token_request e self w"
  by (simp add: token_request_eq print_def prepare_authentication_body_stdout)

lemma sent_print [simp]: "sent (print line w) = sent w"
  by (simp add: print_def)

lemma draws_print [simp]: "draws (print line w) = draws w"
  by (simp add: print_def)

lemma granted_token_iff:
  "granted_token r = Some tok \<longleftrightarrow>
     (\<exists>response body. r = Inr response \<and> status_code response = 200 \<and> parsed response = Some body
        \<and> getitem body ''access_token'' = Inr (JStr tok))"
  by (auto simp: granted_token_def split: sum.splits option.splits json.splits)

lemma prepare_headers_unsendable:
  assumes "\<not> sendable (language (self_config self))"
  shows "sent (snd (prepare_headers e self v w)) = sent w"
    and "\<exists>err. fst (prepare_headers e self v w) = Inl err"
  using get_access_token_unsendable [OF assms, of e w]
  by (auto simp: prepare_headers_def split: prod.splits sum.splits json.splits)

lemma prepare_headers_sent:
  assumes "sendable (language (self_config self))"
  shows "sent (snd (prepare_headers e self v w)) = sent w @ [token_request e self w]"
  using get_access_token_sent [OF assms, of e w]
  by (auto simp: prepare_headers_def split: prod.splits sum.splits json.splits)


lemma prepare_headers_result:
  assumes "sendable (language (self_config self))"
  shows "fst (prepare_headers e self v w) =
     (case upstream e (sent w) (token_request e self w) of
        Inl err \<Rightarrow> Inl err
      | Inr response \<Rightarrow>
          (case validate_response response of
             Inl err \<Rightarrow> Inl err
           | Inr _ \<Rightarrow>
               (case response_json response of
                  Inl err \<Rightarrow> Inl err
                | Inr body \<Rightarrow>
                    (case getitem body ''access_token'' of
                       Inl err \<Rightarrow> Inl err
                     | Inr (JStr tok) \<Rightarrow>
                         Inr [(''Authorization'', ''Bearer '' @ tok),
                              (''Api-Version'', v),
                              (''accept-language'', language (self_config self)),
                              (''Content-Type'', ''application/json; charset=UTF-8''),
                              (''accept-encoding'', ''gzip''),
                              (''x-api-client-identifier'', ''Android''),
                              (''User-Agent'', ''okhttp/3.11.0''),
                              (''Custom-User-Agent'', custom_user_agent self)]
                     | Inr _ \<Rightarrow> Inl TypeError))))"
  using get_access_token_result [OF assms, of e w]
  by (auto simp: prepare_headers_def split: prod.splits sum.splits json.splits)

lemma prepare_headers_Inr:
  assumes "sendable (language (self_config self))"
      and "fst (prepare_headers e self v w) = Inr hs"
  shows "\<exists>tok. granted_token (upstream e (sent w) (token_request e self w)) = Some tok
           \<and> hs = [(''Authorization'', ''Bearer '' @ tok),
                   (''Api-Version'', v),
                   (''accept-language'', language (self_config self)),
                   (''Content-Type'', ''application/json; charset=UTF-8''),
                   (''accept-encoding'', ''gzip''),
                   (''x-api-client-identifier'', ''Android''),
                   (''User-Agent'', ''okhttp/3.11.0''),
                   (''Custom-User-Agent'', custom_user_agent self)]"
  using assms(2) unfolding prepare_headers_result [OF assms(1)]
  by (auto simp: granted_token_def validate_response_def response_json_def
           split: sum.splits option.splits json.splits if_splits)

lemma prepare_headers_Inl:
  assumes "sendable (language (self_config self))"
      and "fst (prepare_headers e self v w) = Inl err"
  shows "granted_token (upstream e (sent w) (token_request e self w)) = None"
  using assms(2) unfolding prepare_headers_result [OF assms(1)]
  by (auto simp: granted_token_def validate_response_def response_json_def
           split: sum.splits option.splits json.splits if_splits)


lemma send_request_for_filters_fetch:
  "send_request_for_filters e self ps w =
     fetch e self ''3.0'' (API_BASE_URL @ ''/visits/available-terms/reservation-filter'') ps w"
  by (simp add: send_request_for_filters_def fetch_def)

lemma get_visits_fetch:
  "get_visits e self city_id service_id from_date to_date clinic_id doctor_id w =
     (case fetch e self ''2.0'' (API_BASE_URL @ ''/visits/available-terms'')
             [(''filter.cityId'', PInt city_id),
              (''filter.serviceId'', PInt service_id),
              (''filter.clinicId'', optional_int clinic_id),
              (''filter.fromDate'', PStr from_date),
              (''filter.toDate'', PStr to_date)]
             (print ''Getting visits for given search parameters...'' w) of
        (Inl err, w2) \<Rightarrow> (Inl err, w2)
      | (Inr raw_visits, w2) \<Rightarrow>
          (case getitem raw_visits ''AgregateAvailableVisitTerms'' of
             Inl err \<Rightarrow> (Inl err, w2)
           | Inr normal_visits \<Rightarrow>
               (case iter normal_visits of
                  Inl err \<Rightarrow> (Inl err, w2)
                | Inr groups \<Rightarrow> (found_visits_loop e [] groups, w2))))"
  by (simp add: get_visits_def fetch_def Let_def response_json_def
           split: prod.splits sum.splits option.splits)


lemma fetch_unsendable_language:
  assumes "\<not> sendable (language (self_config self))"
  shows "sent (snd (fetch e self v u ps w)) = sent w"
    and "\<exists>err. fst (fetch e self v u ps w) = Inl err"
  using prepare_headers_unsendable [OF assms, of e v w]
  by (auto simp: fetch_def split: prod.splits sum.splits)

lemma fetch_refused_token:
  assumes "sendable (language (self_config self))"
      and "granted_token (upstream e (sent w) (token_request e self w)) = None"
  shows "sent (snd (fetch e self v u ps w)) = sent w @ [token_request e self w]"
    and "\<exists>err. fst (fetch e self v u ps w) = Inl err"
  using assms(2) prepare_headers_sent [OF assms(1), of e v w]
    prepare_headers_Inr [OF assms(1), of e v w]
  by (auto simp: fetch_def split: prod.splits sum.splits)

text \<open>
  A granted token that the HTTP stack refuses as a header value ends the call after the
  token request: the data request is not sent.
\<close>

lemma fetch_unsendable_token:
  assumes "sendable (language (self_config self))"
      and "granted_token (upstream e (sent w) (token_request e self w)) = Some tok"
      and "\<not> sendable (''Bearer '' @ tok)"
  shows "sent (snd (fetch e self v u ps w)) = sent w @ [token_request e self w]"
    and "\<exists>err. fst (fetch e self v u ps w) = Inl err"
proof -
  obtain r w1 where Pair: "prepare_headers e self v w = (r, w1)"
    by (cases "prepare_headers e self v w")
  from Pair prepare_headers_sent [OF assms(1), of e v w]
  have w1: "sent w1 = sent w @ [token_request e self w]" by simp
  have "sent (snd (fetch e self v u ps w)) = sent w @ [token_request e self w]
      \<and> (\<exists>err. fst (fetch e self v u ps w) = Inl err)"
  proof (cases r)
    case (Inl err)
    with Pair w1 show ?thesis by (simp add: fetch_def)
  next
    case (Inr hs)
    with Pair assms(2) prepare_headers_Inr [OF assms(1), of e v w hs]
    have "hs = [(''Authorization'', ''Bearer '' @ tok),
                   (''Api-Version'', v),
                   (''accept-language'', language (self_config self)),
                   (''Content-Type'', ''application/json; charset=UTF-8''),
                   (''accept-encoding'', ''gzip''),
                   (''x-api-client-identifier'', ''Android''),
                   (''User-Agent'', ''okhttp/3.11.0''),
                   (''Custom-User-Agent'', custom_user_agent self)]"
      by auto
    with Pair Inr w1 assms(3) show ?thesis
      by (simp add: fetch_def requests_get_def check_headers_eq)
  qed
  then show "sent (snd (fetch e self v u ps w)) = sent w @ [token_request e self w]"
    and "\<exists>err. fst (fetch e self v u ps w) = Inl err"
    by simp_all
qed

lemma fetch_granted_token:
  assumes "sendable (language (self_config self))"
      and "granted_token (upstream e (sent w) (token_request e self w)) = Some tok"
      and "sendable (''Bearer '' @ tok)" and "sendable v"
  shows "\<exists>d. sent (snd (fetch e self v u ps w)) = sent w @ [token_request e self w, d]
           \<and> verb d = GET \<and> url d = u \<and> params d = ps
           \<and> header d ''Authorization'' = Some (''Bearer '' @ tok)
           \<and> header d ''Api-Version'' = Some v
           \<and> fst (fetch e self v u ps w) =
               (case upstream e (sent w @ [token_request e self w]) d of
                  Inl err \<Rightarrow> Inl err
                | Inr response \<Rightarrow>
                    (case validate_response response of
                       Inl err \<Rightarrow> Inl err
                     | Inr _ \<Rightarrow> response_json response))"
proof (cases "prepare_headers e self v w")
  case (Pair r w1)
  show ?thesis
  proof (cases r)
    case (Inl err)
    with Pair assms(2) prepare_headers_Inl [OF assms(1), of e v w err] show ?thesis by simp
  next
    case (Inr hs)
    with Pair assms(2) prepare_headers_Inr [OF assms(1), of e v w hs]
    have hs: "hs = [(''Authorization'', ''Bearer '' @ tok),
                   (''Api-Version'', v),
                   (''accept-language'', language (self_config self)),
                   (''Content-Type'', ''application/json; charset=UTF-8''),
                   (''accept-encoding'', ''gzip''),
                   (''x-api-client-identifier'', ''Android''),
                   (''User-Agent'', ''okhttp/3.11.0''),
                   (''Custom-User-Agent'', custom_user_agent self)]"
      by auto
    from Pair prepare_headers_sent [OF assms(1), of e v w]
    have w1: "sent w1 = sent w @ [token_request e self w]" by simp
    let ?d = "\<lparr>verb = GET, url = u, headers = hs, params = ps, data = []\<rparr>"
    have "check_headers hs = Inr ()"
      unfolding hs using assms(1,3,4) by (simp add: check_headers_eq)
    with Pair Inr w1 have
      "sent (snd (fetch e self v u ps w)) = sent w @ [token_request e self w, ?d]"
      "fst (fetch e self v u ps w) =
               (case upstream e (sent w @ [token_request e self w]) ?d of
                  Inl err \<Rightarrow> Inl err
                | Inr response \<Rightarrow>
                    (case validate_response response of
                       Inl err \<Rightarrow> Inl err
                     | Inr _ \<Rightarrow> response_json response))"
      by (auto simp: fetch_def requests_get_def Let_def split: sum.splits)
    moreover have "header ?d ''Authorization'' = Some (''Bearer '' @ tok)"
      "header ?d ''Api-Version'' = Some v"
      by (simp_all add: header_def hs)
    ultimately show ?thesis
      by (intro exI [of _ ?d]) simp
  qed
qed



lemma reply_token:
  "sent w' = sent w @ t # rest \<Longrightarrow> reply e w' (length (sent w)) = upstream e (sent w) t"
  by (simp add: reply_def)

lemma reply_data:
  "sent w' = sent w @ [t, d] \<Longrightarrow> reply e w' (Suc (length (sent w))) = upstream e (sent w @ [t]) d"
  by (simp add: reply_def nth_append take_Suc_conv_app_nth)

lemma token_request_method: "verb (token_request e self w) = POST"
  by (simp add: token_request_eq)











section \<open>Facts about the loops\<close>

lemma id_name_loop_Inr:
  "id_name_loop acc items = Inr found \<Longrightarrow>
     \<exists>new. found = acc @ new \<and> length new = length items
        \<and> (\<forall>i<length items. getitem (items ! i) ''Id'' = Inr (fst (new ! i))
                \<and> getitem (items ! i) ''Name'' = Inr (snd (new ! i)))"
proof (induction items arbitrary: acc)
  case Nil
  then show ?case by simp
next
  case (Cons item rest)
  from Cons.prems obtain a b where
    a: "getitem item ''Id'' = Inr a" and b: "getitem item ''Name'' = Inr b"
    and rest: "id_name_loop (acc @ [(a, b)]) rest = Inr found"
    by (auto split: sum.splits)
  from Cons.IH [OF rest] obtain new where
    new: "found = (acc @ [(a, b)]) @ new" "length new = length rest"
      "\<forall>i<length rest. getitem (rest ! i) ''Id'' = Inr (fst (new ! i))
          \<and> getitem (rest ! i) ''Name'' = Inr (snd (new ! i))"
    by blast
  have "\<forall>i<length (item # rest). getitem ((item # rest) ! i) ''Id'' = Inr (fst (((a, b) # new) ! i))
          \<and> getitem ((item # rest) ! i) ''Name'' = Inr (snd (((a, b) # new) ! i))"
    using a b new(3) by (auto simp: nth_Cons split: nat.splits)
  with new(1,2) show ?case
    by (intro exI [of _ "(a, b) # new"]) simp
qed

lemma current_day_loop_Inr:
  "current_day_loop acc slots = Inr vs \<Longrightarrow>
     \<exists>new. vs = acc @ new \<and> length new = length slots
        \<and> (\<forall>j<length slots. slot_matches (slots ! j) (new ! j))"
proof (induction slots arbitrary: acc)
  case Nil
  then show ?case by simp
next
  case (Cons slot rest)
  from Cons.prems obtain t doctor dn clinic cn where
    t: "getitem slot ''FormattedVisitHour'' = Inr t"
    and doctor: "getitem slot ''Doctor'' = Inr doctor" "getitem doctor ''Name'' = Inr dn"
    and clinic: "getitem slot ''Clinic'' = Inr clinic" "getitem clinic ''Name'' = Inr cn"
    and rest': "current_day_loop (acc @ [\<lparr>time = t, doctor_name = dn, clinic_name = cn\<rparr>]) rest
                = Inr vs"
    by (auto split: sum.splits)
  define v where "v = \<lparr>time = t, doctor_name = dn, clinic_name = cn\<rparr>"
  from t doctor clinic have v: "slot_matches slot v"
    by (simp add: v_def slot_matches_def getitem2_def)
  from rest' have rest: "current_day_loop (acc @ [v]) rest = Inr vs"
    by (simp add: v_def)
  from Cons.IH [OF rest] obtain new where
    new: "vs = (acc @ [v]) @ new" "length new = length rest"
      "\<forall>j<length rest. slot_matches (rest ! j) (new ! j)"
    by blast
  have "\<forall>j<length (slot # rest). slot_matches ((slot # rest) ! j) ((v # new) ! j)"
    using v new(3) by (auto simp: nth_Cons split: nat.splits)
  with new(1,2) show ?case
    by (intro exI [of _ "v # new"]) simp
qed

lemma found_visits_loop_Inr:
  "found_visits_loop e acc groups = Inr found \<Longrightarrow>
     \<exists>new. found = acc @ new \<and> length new = length groups
        \<and> (\<forall>i<length groups. day_matches e (groups ! i) (new ! i))"
proof (induction groups arbitrary: acc)
  case Nil
  then show ?case by simp
next
  case (Cons g rest)
  from Cons.prems obtain presentation slots vs visit_date ts dt where
    p: "getitem g ''AvailableVisitsTermPresentation'' = Inr presentation"
    and it: "iter presentation = Inr slots"
    and vs: "current_day_loop [] slots = Inr vs"
    and vd: "getitem g ''VisitDate'' = Inr visit_date"
    and ts: "getitem visit_date ''StartDateTime'' = Inr ts"
    and dt: "fromisoformat e ts = Inr dt"
    and rest: "found_visits_loop e (acc @ [\<lparr>date = str_date (date_of dt), visits = vs\<rparr>]) rest = Inr found"
    by (auto split: sum.splits)
  let ?d = "\<lparr>date = str_date (date_of dt), visits = vs\<rparr>"
  from dt vd ts have date: "group_date e g = Some (date ?d)"
    by (simp add: group_date_def getitem2_def)
  have documented: "group_date_portion g = Some (date ?d)" if "reads_documented e g"
  proof -
    from that vd ts dt have "fromisoformat_documented ts = Inr dt"
      by (simp add: reads_documented_def getitem2_def)
    from fromisoformat_documented_date [OF this] vd ts show ?thesis
      by (auto simp: group_date_portion_def getitem2_def date_portion_def)
  qed
  from current_day_loop_Inr [OF vs] have
    "length vs = length slots" "\<forall>j<length slots. slot_matches (slots ! j) (vs ! j)"
    by auto
  with p it date documented have d: "day_matches e g ?d"
    by (auto simp: day_matches_def)
  from Cons.IH [OF rest] obtain new where
    new: "found = (acc @ [?d]) @ new" "length new = length rest"
      "\<forall>i<length rest. day_matches e (rest ! i) (new ! i)"
    by blast
  have "\<forall>i<length (g # rest). day_matches e ((g # rest) ! i) ((?d # new) ! i)"
    using d new(3) by (auto simp: nth_Cons split: nat.splits)
  with new(1,2) show ?case
    by (intro exI [of _ "?d # new"]) simp
qed

section \<open>Facts about successful calls\<close>

text \<open>
  A call that returns has got a body from its data request, and returns what its loop
  makes of that body.
\<close>

lemma fetch_Inr:
  assumes "fst (fetch e self v u ps w) = Inr body"
  shows "\<exists>d response.
           sent (snd (fetch e self v u ps w)) = sent w @ [token_request e self w, d]
           \<and> upstream e (sent w @ [token_request e self w]) d = Inr response
           \<and> status_code response = 200 \<and> parsed response = Some body"
proof -
  have l: "sendable (language (self_config self))"
    using fetch_unsendable_language(2) [of self e v u ps w] assms by auto
  show ?thesis
  proof (cases "granted_token (upstream e (sent w) (token_request e self w))")
    case None
    from fetch_refused_token(2) [OF l None, of v u ps] assms show ?thesis
      by auto
  next
    case (Some tok)
    have b: "sendable (''Bearer '' @ tok)"
      using fetch_unsendable_token(2) [OF l Some, of v u ps] assms by auto
    have v: "sendable v"
    proof (rule ccontr)
      assume n: "\<not> sendable v"
      obtain r w1 where Pair: "prepare_headers e self v w = (r, w1)"
        by (cases "prepare_headers e self v w")
      show False
      proof (cases r)
        case (Inl err)
        with Pair assms show False by (simp add: fetch_def)
      next
        case (Inr hs)
        with Pair prepare_headers_Inr [OF l, of e v w hs] obtain tok' where
          "hs = [(''Authorization'', ''Bearer '' @ tok'),
                   (''Api-Version'', v),
                   (''accept-language'', language (self_config self)),
                   (''Content-Type'', ''application/json; charset=UTF-8''),
                   (''accept-encoding'', ''gzip''),
                   (''x-api-client-identifier'', ''Android''),
                   (''User-Agent'', ''okhttp/3.11.0''),
                   (''Custom-User-Agent'', custom_user_agent self)]"
          by auto
        with Pair Inr n assms show False
          by (simp add: fetch_def requests_get_def check_headers_eq)
      qed
    qed
    from fetch_granted_token [OF l Some b v, of u ps] obtain d where
      d: "sent (snd (fetch e self v u ps w)) = sent w @ [token_request e self w, d]"
      and r: "fst (fetch e self v u ps w) =
         (case upstream e (sent w @ [token_request e self w]) d of
            Inl err \<Rightarrow> Inl err
          | Inr response \<Rightarrow>
              (case validate_response response of
                 Inl err \<Rightarrow> Inl err
               | Inr _ \<Rightarrow> response_json response))"
      by blast
    from r assms obtain response where
      "upstream e (sent w @ [token_request e self w]) d = Inr response"
      "status_code response = 200" "parsed response = Some body"
      by (auto simp: validate_response_def response_json_def
            split: sum.splits if_splits option.splits)
    with d show ?thesis
      by blast
  qed
qed

lemma fetched_body:
  assumes "fst (fetch e self v u ps (print line w)) = Inr body"
      and "reply e (snd (fetch e self v u ps (print line w))) (Suc (length (sent w))) = Inr response"
      and "parsed response = Some body'"
  shows "body' = body"
proof -
  from fetch_Inr [OF assms(1)] obtain d response' where
    d: "sent (snd (fetch e self v u ps (print line w))) = sent w @ [token_request e self w, d]"
    and r: "upstream e (sent w @ [token_request e self w]) d = Inr response'"
      "parsed response' = Some body"
    by auto
  from d assms(2) r(1) have "response = response'"
    by (simp add: reply_data)
  with assms(3) r(2) show ?thesis
    by simp
qed

lemma get_cities_fetch:
  "get_cities e self w =
     (case fetch e self ''3.0'' (API_BASE_URL @ ''/visits/available-terms/reservation-filter'') []
             (print ''Retrieving cities from the Luxmed API...'' w) of
        (Inl err, w1) \<Rightarrow> (Inl err, w1)
      | (Inr response_body, w1) \<Rightarrow> (id_names response_body ''Cities'', w1))"
  by (simp add: get_cities_def send_request_for_filters_fetch Let_def)

lemma get_services_fetch:
  "get_services e self city_id w =
     (case fetch e self ''3.0'' (API_BASE_URL @ ''/visits/available-terms/reservation-filter'')
             [(''filter.cityId'', PInt city_id)]
             (print ''Retrieving services from the Luxmed API...'' w) of
        (Inl err, w1) \<Rightarrow> (Inl err, w1)
      | (Inr response_body, w1) \<Rightarrow> (id_names response_body ''Services'', w1))"
  by (simp add: get_services_def send_request_for_filters_fetch Let_def)

lemma get_clinics_fetch:
  "get_clinics e self city_id w =
     (case fetch e self ''3.0'' (API_BASE_URL @ ''/visits/available-terms/reservation-filter'')
             [(''filter.cityId'', PInt city_id)]
             (print ''Retrieving clinics from the Luxmed API...'' w) of
        (Inl err, w1) \<Rightarrow> (Inl err, w1)
      | (Inr response_body, w1) \<Rightarrow> (id_names response_body ''Clinics'', w1))"
  by (simp add: get_clinics_def send_request_for_filters_fetch Let_def)

lemma id_names_array:
  assumes "id_names body key = Inr found" and "getitem body key = Inr (JArr elems)"
  shows "length found = length elems
       \<and> (\<forall>i<length elems. getitem (elems ! i) ''Id'' = Inr (fst (found ! i))
               \<and> getitem (elems ! i) ''Name'' = Inr (snd (found ! i)))"
proof -
  from assms have "id_name_loop [] elems = Inr found"
    by (simp add: id_names_def)
  from id_name_loop_Inr [OF this] show ?thesis
    by auto
qed

lemma after_fetch:
  assumes "(case fetch e self v u ps (print line w) of
              (Inl err, w1) \<Rightarrow> (Inl err, w1)
            | (Inr body, w1) \<Rightarrow> (f body, w1)) = (Inr found, w')"
      and "reply e w' (Suc (length (sent w))) = Inr response"
      and "parsed response = Some body'"
  shows "f body' = Inr found"
proof -
  from assms(1) obtain body where
    b: "fst (fetch e self v u ps (print line w)) = Inr body"
    and w': "w' = snd (fetch e self v u ps (print line w))"
    and f: "f body = Inr found"
    by (auto split: prod.splits sum.splits)
  from fetched_body [OF b assms(2) [unfolded w'] assms(3)] f show ?thesis
    by simp
qed

lemma get_visits_days:
  assumes "get_visits e self city_id service_id from_date to_date clinic_id doctor_id w
             = (Inr found, w')"
      and "reply e w' (Suc (length (sent w))) = Inr response"
      and "parsed response = Some body"
      and "getitem body ''AgregateAvailableVisitTerms'' = Inr (JArr groups)"
  shows "length found = length groups
       \<and> (\<forall>i<length groups. day_matches e (groups ! i) (found ! i))"
proof -
  let ?f = "\<lambda>raw_visits.
     case getitem raw_visits ''AgregateAvailableVisitTerms'' of
       Inl err \<Rightarrow> Inl err
     | Inr normal_visits \<Rightarrow>
         (case iter normal_visits of
            Inl err \<Rightarrow> Inl err
          | Inr groups \<Rightarrow> found_visits_loop e [] groups)"
  have "(case fetch e self ''2.0'' (API_BASE_URL @ ''/visits/available-terms'')
             [(''filter.cityId'', PInt city_id),
              (''filter.serviceId'', PInt service_id),
              (''filter.clinicId'', optional_int clinic_id),
              (''filter.fromDate'', PStr from_date),
              (''filter.toDate'', PStr to_date)]
             (print ''Getting visits for given search parameters...'' w) of
          (Inl err, w1) \<Rightarrow> (Inl err, w1)
        | (Inr body, w1) \<Rightarrow> (?f body, w1)) = (Inr found, w')"
    using assms(1) unfolding get_visits_fetch
    by (auto split: prod.splits sum.splits)
  from after_fetch [OF this assms(2,3)] assms(4)
  have "found_visits_loop e [] groups = Inr found"
    by simp
  from found_visits_loop_Inr [OF this] show ?thesis
    by auto
qed


section \<open>Facts about the example runs\<close>

text \<open>
  What the three example services answer to the token request of a new client, and the
  requests an operation then sends.
\<close>

lemma sent_world0: "sent world0 = []"
  by (simp add: world0_def)


lemma sendable_pl: "sendable (language (self_config client))"
  by (simp add: client_def sendable_iff isspace_def no_crlf_Cons)

lemma sendable_bearer_abc: "sendable (''Bearer '' @ ''abc'')"
  by (simp add: sendable_iff isspace_def no_crlf_Cons)

lemma token_granted_serving:
  "granted_token (upstream env_serving (sent world0) (token_request env_serving client world0))
     = Some ''abc''"
  by (simp add: env_serving_def serving_def ok_def token_body_def granted_token_def
        token_request_method)








section \<open>Facts about the identifiers and the query\<close>




lemma get_visits_world:
  "snd (get_visits e self city_id service_id from_date to_date clinic_id doctor_id w)
     = snd (fetch e self ''2.0'' (API_BASE_URL @ ''/visits/available-terms'')
              [(''filter.cityId'', PInt city_id),
               (''filter.serviceId'', PInt service_id),
               (''filter.clinicId'', optional_int clinic_id),
               (''filter.fromDate'', PStr from_date),
               (''filter.toDate'', PStr to_date)]
              (print ''Getting visits for given search parameters...'' w))"
  by (simp add: get_visits_fetch split: prod.splits sum.splits)





section \<open>Response validation\<close>

text \<open>
  Claim C4, as stated: for every HTTP response, validation raises an error carrying exactly
  the parsed JSON body if and only if the status code is not 200. It fails on a response
  that is not 200 and whose body is not a JSON text: \<open>response.json()\<close> raises the
  decoder's error before \<open>LuxmedApiException\<close> is built, and that error carries no body.
\<close>

theorem validate_response_bad_gateway:
  "status_code bad_gateway \<noteq> 200 \<and> validate_response bad_gateway = Inl JSONDecodeError"
  by (simp add: bad_gateway_def validate_response_def response_json_def)

text \<open>
  Claim C4, amended: for every response whose body is a JSON text, validation raises
  \<open>LuxmedApiException\<close> carrying exactly the parsed body if and only if the status code
  is not 200, whatever the other status is; a response with status exactly 200 passes
  whatever its body; a response that is not 200 and has no JSON body raises the decoder's
  error.
\<close>

theorem validate_response_by_status:
  "(parsed r = Some body \<longrightarrow>
      (validate_response r = Inl (LuxmedApiException body) \<longleftrightarrow> status_code r \<noteq> 200))
   \<and> (status_code r = 200 \<longrightarrow> validate_response r = Inr ())
   \<and> (status_code r \<noteq> 200 \<and> parsed r = None \<longrightarrow> validate_response r = Inl JSONDecodeError)"
  by (simp add: validate_response_def response_json_def)

theorem validate_response_by_status_witness:
  "validate_response \<lparr>status_code = 401, parsed = Some error_body\<rparr>
     = Inl (LuxmedApiException error_body)
   \<and> validate_response \<lparr>status_code = 500, parsed = Some error_body\<rparr>
     = Inl (LuxmedApiException error_body)
   \<and> validate_response \<lparr>status_code = 200, parsed = Some error_body\<rparr> = Inr ()
   \<and> validate_response \<lparr>status_code = 200, parsed = None\<rparr> = Inr ()
   \<and> validate_response \<lparr>status_code = 502, parsed = None\<rparr> = Inl JSONDecodeError"
  using validate_response_by_status [of "\<lparr>status_code = 401, parsed = Some error_body\<rparr>" error_body]
    validate_response_by_status [of "\<lparr>status_code = 500, parsed = Some error_body\<rparr>" error_body]
    validate_response_by_status [of "\<lparr>status_code = 200, parsed = Some error_body\<rparr>" error_body]
    validate_response_by_status [of "\<lparr>status_code = 200, parsed = None\<rparr>" error_body]
    validate_response_by_status [of "\<lparr>status_code = 502, parsed = None\<rparr>" error_body]
  by simp

section \<open>Round trips\<close>





section \<open>Error kinds\<close>




section \<open>API versions\<close>



section \<open>Authentication identifiers\<close>




section \<open>The query of a visit search\<close>

text \<open>
  Claim C10: \<open>doctor_id\<close> has no effect. Two calls of \<open>get_visits\<close> in the same world
  that differ in \<open>doctor_id\<close> only return the same value and leave the same world: the
  same requests sent, with the same query parameters and headers, the same draws, the same
  lines printed.
\<close>

theorem doctor_id_ignored:
  "get_visits e self city_id service_id from_date to_date clinic_id doctor_id w
     = get_visits e self city_id service_id from_date to_date clinic_id doctor_id' w"
  by (simp add: get_visits_def)

text \<open>
  Claim C5 says the request carries all filters, the doctor id among them. The query
  \<open>get_visits\<close> hands to \<open>requests.get\<close> has five entries: city, service, clinic
  (\<open>None\<close> when left unset) and the two dates. A search for doctor 7 sends no entry for
  the doctor.
\<close>

theorem get_visits_sends_no_doctor_id:
  "params (sent (snd (get_visits env_serving client 1 2 ''2024-03-01'' ''2024-03-02'' None (Some 7)
                        world0)) ! 1)
     = [(''filter.cityId'', PInt 1),
        (''filter.serviceId'', PInt 2),
        (''filter.clinicId'', PNone),
        (''filter.fromDate'', PStr ''2024-03-01''),
        (''filter.toDate'', PStr ''2024-03-02'')]"
proof -
  let ?w = "print ''Getting visits for given search parameters...'' world0"
  have "granted_token (upstream env_serving (sent ?w) (token_request env_serving client ?w))
          = Some ''abc''"
    using token_granted_serving by simp
  from fetch_granted_token [where v = "''2.0''"
      and u = "API_BASE_URL @ ''/visits/available-terms''"
      and ps = "[(''filter.cityId'', PInt 1),
        (''filter.serviceId'', PInt 2),
        (''filter.clinicId'', PNone),
        (''filter.fromDate'', PStr ''2024-03-01''),
        (''filter.toDate'', PStr ''2024-03-02'')]",
      OF sendable_pl this sendable_bearer_abc sendable_literals(1)]
  obtain d where
    d: "sent (snd (fetch env_serving client ''2.0'' (API_BASE_URL @ ''/visits/available-terms'')
                     [(''filter.cityId'', PInt 1),
                      (''filter.serviceId'', PInt 2),
                      (''filter.clinicId'', PNone),
                      (''filter.fromDate'', PStr ''2024-03-01''),
                      (''filter.toDate'', PStr ''2024-03-02'')] ?w))
          = sent ?w @ [token_request env_serving client ?w, d]"
      "params d = [(''filter.cityId'', PInt 1),
                   (''filter.serviceId'', PInt 2),
                   (''filter.clinicId'', PNone),
                   (''filter.fromDate'', PStr ''2024-03-01''),
                   (''filter.toDate'', PStr ''2024-03-02'')]"
    by blast
  show ?thesis
    unfolding get_visits_world
    by (simp add: optional_int_def d sent_world0)
qed

section \<open>Facts about the answers of the example service\<close>

text \<open>
  What the documented format reads in the two timestamps of the example, and what the
  calls of a new client return from the serving example.
\<close>

lemma parse_digits_2_Cons:
  "parse_digits 2 (a # b # rest) v =
     (case digit_val a of
        None \<Rightarrow> None
      | Some da \<Rightarrow>
          (case digit_val b of None \<Rightarrow> None | Some db \<Rightarrow> Some ((v * 10 + da) * 10 + db, rest)))"
  by (simp add: numeral_2_eq_2 split: option.splits)

lemma parse_digits_4_Cons:
  "parse_digits 4 (a # b # c # d # rest) v =
     (case digit_val a of
        None \<Rightarrow> None
      | Some da \<Rightarrow>
          (case digit_val b of
             None \<Rightarrow> None
           | Some db \<Rightarrow>
               (case digit_val c of
                  None \<Rightarrow> None
                | Some dc \<Rightarrow>
                    (case digit_val d of
                       None \<Rightarrow> None
                     | Some dd \<Rightarrow> Some ((((v * 10 + da) * 10 + db) * 10 + dc) * 10 + dd, rest)))))"
  by (simp add: eval_nat_numeral split: option.splits)

lemma parse_date_example:
  "parse_isoformat_date ''2024-03-01'' = Some (2024, 3, 1)"
  "parse_isoformat_date ''2024-03-02'' = Some (2024, 3, 2)"
  by (simp_all add: parse_isoformat_date_def parse_digits_4_Cons parse_digits_2_Cons digit_val_def)

lemma parse_hh_mm_ss_ff_example:
  "parse_hh_mm_ss_ff ''09:00:00'' = Some (9, 0, 0, 0)"
  "parse_hh_mm_ss_ff ''14:30:00'' = Some (14, 30, 0, 0)"
  by (simp_all add: parse_hh_mm_ss_ff_def parse_digits_2_Cons digit_val_def)

lemma parse_time_example:
  "parse_isoformat_time ''09:00:00'' = Some ((9, 0, 0, 0), None)"
  "parse_isoformat_time ''14:30:00'' = Some ((14, 30, 0, 0), None)"
  by (simp_all add: parse_isoformat_time_def is_sign_def parse_hh_mm_ss_ff_example)

lemma fromisoformat_documented_example:
  "fromisoformat_documented (JStr ''2024-03-01T09:00:00'')
     = Inr \<lparr>year = 2024, month = 3, day = 1, hour = 9, minute = 0, second = 0,
            microsecond = 0, utcoffset = None\<rparr>"
  "fromisoformat_documented (JStr ''2024-03-02T14:30:00'')
     = Inr \<lparr>year = 2024, month = 3, day = 2, hour = 14, minute = 30, second = 0,
            microsecond = 0, utcoffset = None\<rparr>"
  by (simp_all add: fromisoformat_documented_def days_in_month_def is_leap_def parse_date_example
        parse_time_example)

lemma str_date_example:
  "str_date \<lparr>date_year = 2024, date_month = 3, date_day = 1\<rparr> = ''2024-03-01''"
  "str_date \<lparr>date_year = 2024, date_month = 3, date_day = 2\<rparr> = ''2024-03-02''"
  by code_simp+

lemma found_visits_example:
  "found_visits_loop env_serving [] day_groups = Inr expected_visits"
  by (simp add: env_serving_def day_groups_def slot_a_def slot_b_def expected_visits_def fromisoformat_documented_example
        date_of_def str_date_example str_date_example [unfolded One_nat_def])

lemma id_names_example:
  "id_names filters_body ''Services''
     = Inr [(JInt 9, JStr ''Okulista''), (JInt 2, JStr ''Internista''),
            (JInt 2, JStr ''Internista'')]"
  by (simp add: id_names_def filters_body_def service_items_def)

lemma fetch_serving:
  assumes "sendable v"
  shows "\<exists>w'. fetch env_serving client v u ps (print line world0)
           = (Inr (if u = API_BASE_URL @ ''/visits/available-terms'' then visits_body
                   else filters_body), w')
        \<and> reply env_serving w' (Suc (length (sent world0)))
            = ok (if u = API_BASE_URL @ ''/visits/available-terms'' then visits_body
                  else filters_body)"
proof -
  let ?w = "print line world0"
  let ?t = "token_request env_serving client world0"
  let ?body = "if u = API_BASE_URL @ ''/visits/available-terms'' then visits_body
               else filters_body"
  have "granted_token (upstream env_serving (sent ?w) (token_request env_serving client ?w))
          = Some ''abc''"
    using token_granted_serving by simp
  from fetch_granted_token [OF sendable_pl this sendable_bearer_abc assms, of u ps] obtain d where
    d: "sent (snd (fetch env_serving client v u ps ?w)) = [?t, d]"
      "verb d = GET" "url d = u"
    and r: "fst (fetch env_serving client v u ps ?w) =
       (case upstream env_serving [?t] d of
          Inl err \<Rightarrow> Inl err
        | Inr response \<Rightarrow>
            (case validate_response response of
               Inl err \<Rightarrow> Inl err
             | Inr _ \<Rightarrow> response_json response))"
    by (auto simp: sent_world0)
  have up: "upstream env_serving [?t] d = ok ?body"
    by (simp add: env_serving_def serving_def d(2,3))
  have "fst (fetch env_serving client v u ps ?w) = Inr ?body"
    unfolding r up by (simp add: ok_def validate_response_def response_json_def)
  moreover have "reply env_serving (snd (fetch env_serving client v u ps ?w))
                   (Suc (length (sent world0))) = ok ?body"
    using up by (simp add: reply_def d(1) sent_world0)
  ultimately show ?thesis
    by (intro exI [of _ "snd (fetch env_serving client v u ps ?w)"]) (simp add: prod_eq_iff)
qed

lemma get_services_serving:
  "fst (get_services env_serving client city_id world0)
     = Inr [(JInt 9, JStr ''Okulista''), (JInt 2, JStr ''Internista''),
            (JInt 2, JStr ''Internista'')]
   \<and> reply env_serving (snd (get_services env_serving client city_id world0))
         (Suc (length (sent world0))) = ok filters_body"
proof -
  from fetch_serving [where v = "''3.0''"
      and u = "API_BASE_URL @ ''/visits/available-terms/reservation-filter''"
      and ps = "[(''filter.cityId'', PInt city_id)]"
      and line = "''Retrieving services from the Luxmed API...''", OF sendable_literals(2)]
  obtain w' where
    "fetch env_serving client ''3.0'' (API_BASE_URL @ ''/visits/available-terms/reservation-filter'')
       [(''filter.cityId'', PInt city_id)]
       (print ''Retrieving services from the Luxmed API...'' world0) = (Inr filters_body, w')"
    "reply env_serving w' (Suc (length (sent world0))) = ok filters_body"
    by auto
  then show ?thesis
    by (simp add: get_services_fetch id_names_example)
qed

lemma get_visits_serving:
  "fst (get_visits env_serving client city_id service_id from_date to_date clinic_id doctor_id
          world0) = Inr expected_visits
   \<and> reply env_serving
         (snd (get_visits env_serving client city_id service_id from_date to_date clinic_id
                 doctor_id world0))
         (Suc (length (sent world0))) = ok visits_body"
proof -
  from fetch_serving [where v = "''2.0''"
      and u = "API_BASE_URL @ ''/visits/available-terms''"
      and ps = "[(''filter.cityId'', PInt city_id),
        (''filter.serviceId'', PInt service_id),
        (''filter.clinicId'', optional_int clinic_id),
        (''filter.fromDate'', PStr from_date),
        (''filter.toDate'', PStr to_date)]"
      and line = "''Getting visits for given search parameters...''", OF sendable_literals(1)]
  obtain w' where
    "fetch env_serving client ''2.0'' (API_BASE_URL @ ''/visits/available-terms'')
       [(''filter.cityId'', PInt city_id),
        (''filter.serviceId'', PInt service_id),
        (''filter.clinicId'', optional_int clinic_id),
        (''filter.fromDate'', PStr from_date),
        (''filter.toDate'', PStr to_date)]
       (print ''Getting visits for given search parameters...'' world0) = (Inr visits_body, w')"
    "reply env_serving w' (Suc (length (sent world0))) = ok visits_body"
    by auto
  then show ?thesis
    by (simp add: get_visits_fetch visits_body_def found_visits_example)
qed

section \<open>Discovery\<close>

text \<open>
  Claim C3: when \<open>get_cities\<close>, \<open>get_services\<close> or \<open>get_clinics\<close> returns, and the body
  the data request got holds an array under \<open>Cities\<close>, \<open>Services\<close> or \<open>Clinics\<close>
  respectively, the returned list is as long as that array and its pair at each position
  is the \<open>Id\<close> and the \<open>Name\<close> of the array's element at that position: upstream order,
  nothing merged, nothing sorted.
\<close>

theorem discovery_pairs:
  assumes "(call, key) \<in> {(get_cities e self, ''Cities''),
                           (get_services e self city_id, ''Services''),
                           (get_clinics e self city_id, ''Clinics'')}"
      and "call w = (Inr found, w')"
      and "reply e w' (Suc (length (sent w))) = Inr response"
      and "parsed response = Some body"
      and "getitem body key = Inr (JArr elems)"
  shows "length found = length elems
       \<and> (\<forall>i<length elems. getitem (elems ! i) ''Id'' = Inr (fst (found ! i))
               \<and> getitem (elems ! i) ''Name'' = Inr (snd (found ! i)))"
proof -
  have "id_names body key = Inr found"
    using assms(1)
  proof (elim insertE emptyE)
    assume "(call, key) = (get_cities e self, ''Cities'')"
    with assms(2) have g: "get_cities e self w = (Inr found, w')" and k: "key = ''Cities''"
      by simp_all
    from after_fetch [OF g [unfolded get_cities_fetch] assms(3,4)] k show ?thesis
      by simp
  next
    assume "(call, key) = (get_services e self city_id, ''Services'')"
    with assms(2) have g: "get_services e self city_id w = (Inr found, w')" and k: "key = ''Services''"
      by simp_all
    from after_fetch [OF g [unfolded get_services_fetch] assms(3,4)] k show ?thesis
      by simp
  next
    assume "(call, key) = (get_clinics e self city_id, ''Clinics'')"
    with assms(2) have g: "get_clinics e self city_id w = (Inr found, w')" and k: "key = ''Clinics''"
      by simp_all
    from after_fetch [OF g [unfolded get_clinics_fetch] assms(3,4)] k show ?thesis
      by simp
  qed
  from id_names_array [OF this assms(5)] show ?thesis .
qed

theorem discovery_pairs_witness:
  "fst (get_services env_serving client 1 world0)
     = Inr [(JInt 9, JStr ''Okulista''), (JInt 2, JStr ''Internista''),
            (JInt 2, JStr ''Internista'')]
   \<and> reply env_serving (snd (get_services env_serving client 1 world0))
         (Suc (length (sent world0))) = ok filters_body
   \<and> getitem filters_body ''Services'' = Inr (JArr service_items)
   \<and> length service_items = 3
   \<and> getitem (service_items ! 0) ''Name'' = Inr (JStr ''Okulista'')
   \<and> getitem (service_items ! 2) ''Id'' = Inr (JInt 2)"
proof -
  let ?call = "get_services env_serving client 1"
  let ?found = "[(JInt 9, JStr ''Okulista''), (JInt 2, JStr ''Internista''),
                 (JInt 2, JStr ''Internista'')]"
  have h1: "(?call, ''Services'') \<in> {(get_cities env_serving client, ''Cities''),
                                       (get_services env_serving client 1, ''Services''),
                                       (get_clinics env_serving client 1, ''Clinics'')}"
    by simp
  have f: "fst (?call world0) = Inr ?found"
    using get_services_serving [of 1] by simp
  then have h2: "?call world0 = (Inr ?found, snd (?call world0))"
    by (simp add: prod_eq_iff)
  have r: "reply env_serving (snd (?call world0)) (Suc (length (sent world0))) = ok filters_body"
    using get_services_serving [of 1] by simp
  then have h3: "reply env_serving (snd (?call world0)) (Suc (length (sent world0)))
      = Inr \<lparr>status_code = 200, parsed = Some filters_body\<rparr>"
    by (simp add: ok_def)
  have h4: "parsed \<lparr>status_code = 200, parsed = Some filters_body\<rparr> = Some filters_body"
    by simp
  have h5: "getitem filters_body ''Services'' = Inr (JArr service_items)"
    by (simp add: filters_body_def)
  have n: "length service_items = 3"
    by (simp add: service_items_def)
  from discovery_pairs [OF h1 h2 h3 h4 h5] n
  have "getitem (service_items ! 0) ''Name'' = Inr (snd (?found ! 0))"
    "getitem (service_items ! 2) ''Id'' = Inr (fst (?found ! 2))"
    by simp_all
  with f r h5 n show ?thesis
    by simp
qed

section \<open>Visit search\<close>

text \<open>
  Claim C1: when \<open>get_visits\<close> returns, and the body the data request got holds an array
  of \<open>N\<close> day-groups under \<open>AgregateAvailableVisitTerms\<close>, the returned list has \<open>N\<close>
  entries, and the \<open>date\<close> of the entry at each position is the date portion of
  \<open>VisitDate.StartDateTime\<close> of the group at that position: the date the installed
  library reads in that timestamp, written \<open>YYYY-MM-DD\<close>. Where the library reads the
  timestamp as the documented format does (\<open>2024-03-15T09:00:00\<close> is of that format),
  this is the timestamp's first ten characters.
\<close>

theorem visit_days:
  assumes "get_visits e self city_id service_id from_date to_date clinic_id doctor_id w
             = (Inr found, w')"
      and "reply e w' (Suc (length (sent w))) = Inr response"
      and "parsed response = Some body"
      and "getitem body ''AgregateAvailableVisitTerms'' = Inr (JArr groups)"
  shows "length found = length groups
       \<and> (\<forall>i<length groups.
              group_date e (groups ! i) = Some (date (found ! i))
              \<and> (reads_documented e (groups ! i)
                   \<longrightarrow> group_date_portion (groups ! i) = Some (date (found ! i))))"
  using get_visits_days [OF assms]
  by (simp add: day_matches_def)

theorem visit_days_witness:
  "fst (get_visits env_serving client 1 2 ''2024-03-01'' ''2024-03-02'' None None world0)
     = Inr expected_visits
   \<and> reply env_serving
         (snd (get_visits env_serving client 1 2 ''2024-03-01'' ''2024-03-02'' None None world0))
         (Suc (length (sent world0))) = ok visits_body
   \<and> getitem visits_body ''AgregateAvailableVisitTerms'' = Inr (JArr day_groups)
   \<and> length expected_visits = length day_groups
   \<and> length day_groups = 2
   \<and> reads_documented env_serving (day_groups ! 0)
   \<and> reads_documented env_serving (day_groups ! 1)
   \<and> group_date env_serving (day_groups ! 0) = Some ''2024-03-01''
   \<and> group_date env_serving (day_groups ! 1) = Some ''2024-03-02''
   \<and> group_date_portion (day_groups ! 0) = Some ''2024-03-01''
   \<and> group_date_portion (day_groups ! 1) = Some ''2024-03-02''"
proof -
  let ?run = "get_visits env_serving client 1 2 ''2024-03-01'' ''2024-03-02'' None None world0"
  have f: "fst ?run = Inr expected_visits"
    using get_visits_serving [of 1 2 "''2024-03-01''" "''2024-03-02''" None None] by simp
  then have h1: "?run = (Inr expected_visits, snd ?run)"
    by (simp add: prod_eq_iff)
  have r: "reply env_serving (snd ?run) (Suc (length (sent world0))) = ok visits_body"
    using get_visits_serving [of 1 2 "''2024-03-01''" "''2024-03-02''" None None] by simp
  then have h2: "reply env_serving (snd ?run) (Suc (length (sent world0)))
      = Inr \<lparr>status_code = 200, parsed = Some visits_body\<rparr>"
    by (simp add: ok_def)
  have h3: "parsed \<lparr>status_code = 200, parsed = Some visits_body\<rparr> = Some visits_body"
    by simp
  have h4: "getitem visits_body ''AgregateAvailableVisitTerms'' = Inr (JArr day_groups)"
    by (simp add: visits_body_def)
  have n: "length day_groups = 2"
    by (simp add: day_groups_def)
  have d: "date (expected_visits ! 0) = ''2024-03-01''" "date (expected_visits ! 1) = ''2024-03-02''"
    by (simp_all add: expected_visits_def)
  have rd: "reads_documented env_serving (day_groups ! 0)"
    "reads_documented env_serving (day_groups ! 1)"
    by (simp_all add: reads_documented_def day_groups_def getitem2_def env_serving_def)
  from visit_days [OF h1 h2 h3 h4] n d rd
  have "length expected_visits = length day_groups"
    "group_date env_serving (day_groups ! 0) = Some ''2024-03-01''"
    "group_date env_serving (day_groups ! 1) = Some ''2024-03-02''"
    "group_date_portion (day_groups ! 0) = Some ''2024-03-01''"
    "group_date_portion (day_groups ! 1) = Some ''2024-03-02''"
    by simp_all
  with f r h4 n rd show ?thesis
    by simp
qed

text \<open>
  Claim C2: under the same conditions, for every day-group whose
  \<open>AvailableVisitsTermPresentation\<close> is an array, the \<open>visits\<close> of the returned day are as
  many as the slots of that array, and the visit at each position has the slot's
  \<open>FormattedVisitHour\<close> as \<open>time\<close>, its \<open>Doctor.Name\<close> as \<open>doctor_name\<close> and its
  \<open>Clinic.Name\<close> as \<open>clinic_name\<close>.
\<close>

theorem visit_slots:
  assumes "get_visits e self city_id service_id from_date to_date clinic_id doctor_id w
             = (Inr found, w')"
      and "reply e w' (Suc (length (sent w))) = Inr response"
      and "parsed response = Some body"
      and "getitem body ''AgregateAvailableVisitTerms'' = Inr (JArr groups)"
      and "i < length groups"
      and "getitem (groups ! i) ''AvailableVisitsTermPresentation'' = Inr (JArr slots)"
  shows "length (visits (found ! i)) = length slots
       \<and> (\<forall>j<length slots.
              getitem (slots ! j) ''FormattedVisitHour'' = Inr (time (visits (found ! i) ! j))
              \<and> getitem2 (slots ! j) ''Doctor'' ''Name''
                  = Inr (doctor_name (visits (found ! i) ! j))
              \<and> getitem2 (slots ! j) ''Clinic'' ''Name''
                  = Inr (clinic_name (visits (found ! i) ! j)))"
  using get_visits_days [OF assms(1-4)] assms(5,6)
  by (simp add: day_matches_def slot_matches_def)

theorem visit_slots_witness:
  "fst (get_visits env_serving client 1 2 ''2024-03-01'' ''2024-03-02'' None None world0)
     = Inr expected_visits
   \<and> reply env_serving
         (snd (get_visits env_serving client 1 2 ''2024-03-01'' ''2024-03-02'' None None world0))
         (Suc (length (sent world0))) = ok visits_body
   \<and> getitem visits_body ''AgregateAvailableVisitTerms'' = Inr (JArr day_groups)
   \<and> getitem (day_groups ! 1) ''AvailableVisitsTermPresentation'' = Inr (JArr [slot_b])
   \<and> length (visits (expected_visits ! 1)) = 1
   \<and> getitem slot_b ''FormattedVisitHour'' = Inr (JStr ''14:30'')
   \<and> getitem2 slot_b ''Doctor'' ''Name'' = Inr (JStr ''Jan Kowalski'')
   \<and> getitem2 slot_b ''Clinic'' ''Name'' = Inr (JStr ''LX Mokotow'')"
proof -
  let ?run = "get_visits env_serving client 1 2 ''2024-03-01'' ''2024-03-02'' None None world0"
  have f: "fst ?run = Inr expected_visits"
    using get_visits_serving [of 1 2 "''2024-03-01''" "''2024-03-02''" None None] by simp
  then have h1: "?run = (Inr expected_visits, snd ?run)"
    by (simp add: prod_eq_iff)
  have r: "reply env_serving (snd ?run) (Suc (length (sent world0))) = ok visits_body"
    using get_visits_serving [of 1 2 "''2024-03-01''" "''2024-03-02''" None None] by simp
  then have h2: "reply env_serving (snd ?run) (Suc (length (sent world0)))
      = Inr \<lparr>status_code = 200, parsed = Some visits_body\<rparr>"
    by (simp add: ok_def)
  have h3: "parsed \<lparr>status_code = 200, parsed = Some visits_body\<rparr> = Some visits_body"
    by simp
  have h4: "getitem visits_body ''AgregateAvailableVisitTerms'' = Inr (JArr day_groups)"
    by (simp add: visits_body_def)
  have h5: "1 < length day_groups"
    by (simp add: day_groups_def)
  have h6: "getitem (day_groups ! 1) ''AvailableVisitsTermPresentation'' = Inr (JArr [slot_b])"
    by (simp add: day_groups_def)
  have v: "visits (expected_visits ! 1)
      = [\<lparr>time = JStr ''14:30'', doctor_name = JStr ''Jan Kowalski'',
           clinic_name = JStr ''LX Mokotow''\<rparr>]"
    by (simp add: expected_visits_def)
  from visit_slots [OF h1 h2 h3 h4 h5 h6] v
  have "length (visits (expected_visits ! 1)) = 1"
    "getitem slot_b ''FormattedVisitHour'' = Inr (JStr ''14:30'')"
    "getitem2 slot_b ''Doctor'' ''Name'' = Inr (JStr ''Jan Kowalski'')"
    "getitem2 slot_b ''Clinic'' ''Name'' = Inr (JStr ''LX Mokotow'')"
    by simp_all
  with f r h4 h6 show ?thesis
    by simp
qed

end
